theory Spec2Isabelle
  imports Complex_Main "HOL-Library.Multiset" "HOL-Library.List_Lexorder" "HOL-Library.Char_ord"
begin

unbundle bit_operations_syntax

section \<open>SHA-256\<close>

text \<open>
  The repository hashes with Node's \<^verbatim>\<open>createHash('sha256').update(s).digest('hex')\<close>.
  The digest is modelled by the algorithm of FIPS 180-4 over 32-bit words, held as natural
  numbers below \<open>2 ^ 32\<close> with the wrap-around of every addition written out.  Strings are
  byte strings: a \<^typ>\<open>char\<close> is one byte of the UTF-8 encoding that \<^verbatim>\<open>update\<close> hashes.
\<close>

type_synonym u32 = nat

definition add32 :: "u32 \<Rightarrow> u32 \<Rightarrow> u32" where
  "add32 a b = (a + b) mod 4294967296"

definition rotr :: "nat \<Rightarrow> u32 \<Rightarrow> u32" where
  "rotr n x = x div 2 ^ n + (x mod 2 ^ n) * 2 ^ (32 - n)"

definition shr :: "nat \<Rightarrow> u32 \<Rightarrow> u32" where
  "shr n x = x div 2 ^ n"

definition not32 :: "u32 \<Rightarrow> u32" where
  "not32 x = 4294967295 - x"

definition ch :: "u32 \<Rightarrow> u32 \<Rightarrow> u32 \<Rightarrow> u32" where
  "ch x y z = (x AND y) XOR (not32 x AND z)"

definition maj :: "u32 \<Rightarrow> u32 \<Rightarrow> u32 \<Rightarrow> u32" where
  "maj x y z = (x AND y) XOR (x AND z) XOR (y AND z)"

definition bsig0 :: "u32 \<Rightarrow> u32" where
  "bsig0 x = rotr 2 x XOR rotr 13 x XOR rotr 22 x"

definition bsig1 :: "u32 \<Rightarrow> u32" where
  "bsig1 x = rotr 6 x XOR rotr 11 x XOR rotr 25 x"

definition ssig0 :: "u32 \<Rightarrow> u32" where
  "ssig0 x = rotr 7 x XOR rotr 18 x XOR shr 3 x"

definition ssig1 :: "u32 \<Rightarrow> u32" where
  "ssig1 x = rotr 17 x XOR rotr 19 x XOR shr 10 x"

text \<open>
  The round constants (the first 32 bits of the fractional parts of the cube roots of the
  first 64 primes) and the initial hash value (likewise, of the square roots of the first
  8 primes), in decimal.
\<close>

definition K256 :: "u32 list" where
  "K256 = [
     1116352408, 1899447441, 3049323471, 3921009573, 961987163, 1508970993,
     2453635748, 2870763221, 3624381080, 310598401, 607225278, 1426881987,
     1925078388, 2162078206, 2614888103, 3248222580, 3835390401, 4022224774,
     264347078, 604807628, 770255983, 1249150122, 1555081692, 1996064986,
     2554220882, 2821834349, 2952996808, 3210313671, 3336571891, 3584528711,
     113926993, 338241895, 666307205, 773529912, 1294757372, 1396182291,
     1695183700, 1986661051, 2177026350, 2456956037, 2730485921, 2820302411,
     3259730800, 3345764771, 3516065817, 3600352804, 4094571909, 275423344,
     430227734, 506948616, 659060556, 883997877, 958139571, 1322822218,
     1537002063, 1747873779, 1955562222, 2024104815, 2227730452, 2361852424,
     2428436474, 2756734187, 3204031479, 3329325298]"

type_synonym sha_state = "u32 \<times> u32 \<times> u32 \<times> u32 \<times> u32 \<times> u32 \<times> u32 \<times> u32"

definition H256 :: sha_state where
  "H256 = (1779033703, 3144134277, 1013904242, 2773480762,
           1359893119, 2600822924, 528734635, 1541459225)"

text \<open>Padding: the byte 0x80, zero bytes up to 56 modulo 64, the bit length in 64 bits.\<close>

definition be64 :: "nat \<Rightarrow> nat list" where
  "be64 n = map (\<lambda>i. (n div 256 ^ i) mod 256) [7, 6, 5, 4, 3, 2, 1, 0]"

definition pad :: "nat list \<Rightarrow> nat list" where
  "pad m = m @ [128] @ replicate ((119 - length m mod 64) mod 64) 0 @ be64 (8 * length m)"

fun be_words :: "nat list \<Rightarrow> u32 list" where
  "be_words (a # b # c # d # rest) = (((a * 256 + b) * 256 + c) * 256 + d) # be_words rest"
| "be_words _ = []"

function blocks :: "u32 list \<Rightarrow> u32 list list" where
  "blocks ws = (if length ws < 16 then [] else take 16 ws # blocks (drop 16 ws))"
  by pat_completeness auto
termination
  by (relation "measure length") auto

declare blocks.simps [simp del]

text \<open>
  Message schedule: the window holds the last sixteen words, oldest first; one word is
  emitted per round constant.
\<close>

fun schedule :: "u32 list \<Rightarrow> 'a list \<Rightarrow> u32 list" where
  "schedule win [] = []"
| "schedule win (_ # ks) =
     hd win # schedule (tl win @ [add32 (add32 (add32 (ssig1 (win ! 14)) (win ! 9))
                                                (ssig0 (win ! 1))) (win ! 0)]) ks"

fun apply_round :: "u32 \<Rightarrow> u32 \<Rightarrow> sha_state \<Rightarrow> sha_state" where
  "apply_round t1 t2 (a, b, c, d, e, f, g, h) = (add32 t1 t2, a, b, c, add32 d t1, e, f, g)"

fun round256 :: "u32 \<times> u32 \<Rightarrow> sha_state \<Rightarrow> sha_state" where
  "round256 (k, w) (a, b, c, d, e, f, g, h) =
     apply_round (add32 (add32 (add32 (add32 h (bsig1 e)) (ch e f g)) k) w)
                 (add32 (bsig0 a) (maj a b c))
                 (a, b, c, d, e, f, g, h)"

fun add_state :: "sha_state \<Rightarrow> sha_state \<Rightarrow> sha_state" where
  "add_state (a, b, c, d, e, f, g, h) (a', b', c', d', e', f', g', h') =
     (add32 a a', add32 b b', add32 c c', add32 d d',
      add32 e e', add32 f f', add32 g g', add32 h h')"

definition compress :: "u32 list \<Rightarrow> sha_state \<Rightarrow> sha_state" where
  "compress block hs = add_state hs (fold round256 (zip K256 (schedule block K256)) hs)"

fun state_words :: "sha_state \<Rightarrow> u32 list" where
  "state_words (a, b, c, d, e, f, g, h) = [a, b, c, d, e, f, g, h]"

definition hex_alphabet :: string where
  "hex_alphabet = ''0123456789abcdef''"

definition hexdigit :: "nat \<Rightarrow> char" where
  "hexdigit n = hex_alphabet ! n"

definition hex32 :: "u32 \<Rightarrow> string" where
  "hex32 w = map (\<lambda>i. hexdigit ((w div 16 ^ i) mod 16)) [7, 6, 5, 4, 3, 2, 1, 0]"

definition sha256 :: "string \<Rightarrow> string" where
  "sha256 s = concat (map hex32 (state_words
                (fold compress (blocks (be_words (pad (map of_char s)))) H256)))"

section \<open>Merkle tree (model/merkle.ts)\<close>

text \<open>
  JavaScript's \<^verbatim>\<open>a || b\<close> on strings: the empty string is falsy, so \<^verbatim>\<open>b\<close> is taken for it.
  An absent value (\<^verbatim>\<open>undefined\<close>) is \<open>None\<close>.
\<close>

definition or_else :: "string option \<Rightarrow> string \<Rightarrow> string" where
  "or_else v d = (case v of None \<Rightarrow> d | Some s \<Rightarrow> if s = [] then d else s)"

text \<open>
  One pass of the \<^verbatim>\<open>for\<close> loop of \<^verbatim>\<open>buildTree\<close>: adjacent entries are paired left to right,
  \<^verbatim>\<open>currentLevel[i + 1] || left\<close> duplicates the last entry of a level of odd length.
\<close>

fun pairLevel :: "string list \<Rightarrow> string list" where
  "pairLevel [] = []"
| "pairLevel [left] = [sha256 (left @ or_else None left)]"
| "pairLevel (left # right # rest) = sha256 (left @ or_else (Some right) left) # pairLevel rest"

text \<open>The \<^verbatim>\<open>while (currentLevel.length > 1)\<close> loop: the levels above the current one.\<close>

function buildLevels :: "string list \<Rightarrow> string list list" where
  "buildLevels currentLevel =
     (if length currentLevel > 1
      then pairLevel currentLevel # buildLevels (pairLevel currentLevel)
      else [])"
  by pat_completeness auto
termination
proof (relation "measure length")
  show "wf (measure length)" by simp
next
  fix currentLevel :: "string list"
  assume long: "1 < length currentLevel"
  have "length (pairLevel xs) = (length xs + 1) div 2" for xs
    by (induction xs rule: pairLevel.induct) simp_all
  with long show "(pairLevel currentLevel, currentLevel) \<in> measure length"
    by simp
qed

declare buildLevels.simps [simp del]

definition buildTree :: "string list \<Rightarrow> string list list" where
  "buildTree leaves = leaves # buildLevels leaves"

record MerkleTree =
  leaves :: "string list"
  tree :: "string list list"

text \<open>The constructor sorts a copy of the leaves (code-unit order) and builds the levels.\<close>

definition newMerkleTree :: "string list \<Rightarrow> MerkleTree" where
  "newMerkleTree ls = \<lparr>leaves = sort ls, tree = buildTree (sort ls)\<rparr>"

text \<open>
  \<^verbatim>\<open>getRoot\<close> reads \<^verbatim>\<open>this.tree[this.tree.length - 1][0]\<close>; reading index 0 of an empty level
  yields \<^verbatim>\<open>undefined\<close>, which is \<open>None\<close> here.  The tree always has at least the leaf level.
\<close>

definition getRoot :: "MerkleTree \<Rightarrow> string option" where
  "getRoot t = (case tree t of [] \<Rightarrow> None
                | _ # _ \<Rightarrow> (case last (tree t) of [] \<Rightarrow> None | r # _ \<Rightarrow> Some r))"

fun indexOf :: "'a list \<Rightarrow> 'a \<Rightarrow> nat option" where
  "indexOf [] x = None"
| "indexOf (y # ys) x = (if y = x then Some 0 else map_option Suc (indexOf ys x))"

datatype merkle_error = LeafNotFound

text \<open>
  The \<^verbatim>\<open>for\<close> loop of \<^verbatim>\<open>getProof\<close> runs over every level but the last, carrying the index.
\<close>

fun proofLoop :: "string list list \<Rightarrow> nat \<Rightarrow> string list" where
  "proofLoop [] currentIndex = []"
| "proofLoop (currentLevel # rest) currentIndex =
     (let siblingIndex = (if currentIndex mod 2 = 0 then currentIndex + 1 else currentIndex - 1)
      in (if siblingIndex < length currentLevel then [currentLevel ! siblingIndex] else [])
         @ proofLoop rest (currentIndex div 2))"

definition getProof :: "MerkleTree \<Rightarrow> string \<Rightarrow> merkle_error + string list" where
  "getProof t leaf =
     (case indexOf (leaves t) leaf of
        None \<Rightarrow> Inl LeafNotFound
      | Some leafIndex \<Rightarrow> Inr (proofLoop (butlast (tree t)) leafIndex))"

definition verifyProof :: "string \<Rightarrow> string list \<Rightarrow> string \<Rightarrow> bool" where
  "verifyProof leaf proof expectedRoot =
     (fold (\<lambda>sibling hash. sha256 (hash @ sibling)) proof leaf = expectedRoot)"

definition buildMerkleTree :: "string list \<Rightarrow> MerkleTree" where
  "buildMerkleTree rowHashes = newMerkleTree rowHashes"

definition generateMerkleRoot :: "string list \<Rightarrow> string option" where
  "generateMerkleRoot rowHashes = getRoot (buildMerkleTree rowHashes)"

definition generateMerkleProof :: "string list \<Rightarrow> string \<Rightarrow> merkle_error + string list" where
  "generateMerkleProof rowHashes targetHash = getProof (buildMerkleTree rowHashes) targetHash"

definition verifyMerkleProof :: "string \<Rightarrow> string list \<Rightarrow> string \<Rightarrow> bool" where
  "verifyMerkleProof leaf proof expectedRoot = verifyProof leaf proof expectedRoot"

section \<open>Numbers and their decimal renderings\<close>

text \<open>
  A JavaScript number is modelled by its exact value, a rational.  The schema admits only
  finite numbers, so \<^verbatim>\<open>NaN\<close> and the infinities do not occur; the rounding of double
  arithmetic is outside the model.  The renderings below are those of ECMAScript where it
  uses no exponent notation and the decimal has at most fifteen significant digits: for
  \<^verbatim>\<open>toFixed\<close> a magnitude below \<open>10\<^sup>2\<^sup>1\<close>, for \<^verbatim>\<open>toString\<close> zero or a magnitude from
  \<open>10\<^sup>-\<^sup>6\<close> on with at most twenty decimals.  Every clamped value rounded to up to six
  decimals is of this kind.
\<close>

type_synonym number = rat

definition digit_char :: "nat \<Rightarrow> char" where
  "digit_char n = ''0123456789'' ! n"

text \<open>The decimal digits of a non-negative integer.\<close>

function digits :: "int \<Rightarrow> string" where
  "digits n = (if n < 10 then [digit_char (nat n)]
               else digits (n div 10) @ [digit_char (nat (n mod 10))])"
  by pat_completeness auto
termination
  by (relation "measure nat") auto

declare digits.simps [simp del]

text \<open>
  \<^verbatim>\<open>Number.prototype.toFixed(f)\<close>: the sign, then the integer \<open>n\<close> nearest to
  \<open>\<bar>x\<bar> * 10 ^ f\<close> (the larger one on a tie), padded with zeros to \<open>f + 1\<close> digits, with the
  point before the last \<open>f\<close> digits.
\<close>

definition toFixed :: "number \<Rightarrow> nat \<Rightarrow> string" where
  "toFixed x f =
     (let s = (if x < 0 then ''-'' else []);
          n = \<lfloor>\<bar>x\<bar> * 10 ^ f + 1 / 2\<rfloor>;
          m = digits n;
          m' = (if length m \<le> f then replicate (f + 1 - length m) CHR ''0'' @ m else m)
      in s @ (if f = 0 then m
              else take (length m' - f) m' @ ''.'' @ drop (length m' - f) m'))"

text \<open>\<^verbatim>\<open>Number(s)\<close> on a decimal literal: sign, integer digits, optional fraction.\<close>

definition digit_val :: "char \<Rightarrow> int" where
  "digit_val c = of_char c - 48"

definition parse_nat :: "string \<Rightarrow> int" where
  "parse_nat cs = foldl (\<lambda>acc c. 10 * acc + digit_val c) 0 cs"

definition Number :: "string \<Rightarrow> number" where
  "Number s =
     (let neg = (s \<noteq> [] \<and> hd s = CHR ''-'');
          body = (if neg then tl s else s);
          ip = takeWhile (\<lambda>c. c \<noteq> CHR ''.'') body;
          fp = drop (length ip + 1) body;
          v = of_int (parse_nat ip) + of_int (parse_nat fp) / 10 ^ length fp
      in if neg then - v else v)"

text \<open>
  For stating what the two together compute: rounding to \<open>p\<close> decimal places, to the
  nearest, a tie away from zero.
\<close>

definition round_decimal :: "number \<Rightarrow> nat \<Rightarrow> number" where
  "round_decimal x p = (if x < 0 then - 1 else 1) * of_int \<lfloor>\<bar>x\<bar> * 10 ^ p + 1 / 2\<rfloor> / 10 ^ p"

text \<open>
  \<^verbatim>\<open>Number.prototype.toString()\<close>: the shortest decimal that denotes the value, so no
  trailing zeros and no point for an integer; minus zero prints as \<^verbatim>\<open>0\<close>.
\<close>

fun frac_digits :: "nat \<Rightarrow> rat \<Rightarrow> string" where
  "frac_digits 0 r = []"
| "frac_digits (Suc k) r =
     (if r = 0 then []
      else digit_char (nat \<lfloor>r * 10\<rfloor>) # frac_digits k (r * 10 - of_int \<lfloor>r * 10\<rfloor>))"

definition toString :: "number \<Rightarrow> string" where
  "toString x =
     (let a = \<bar>x\<bar>;
          fr = frac_digits 20 (a - of_int \<lfloor>a\<rfloor>)
      in (if x < 0 then ''-'' else []) @ digits \<lfloor>a\<rfloor>
         @ (if fr = [] then [] else ''.'' @ fr))"

text \<open>
  Double arithmetic, for comparison with the exact values: the binary64 number nearest to
  a rational (a tie to the even significand), for magnitudes in the normal range.  The
  exponent \<open>e\<close> with \<open>2\<^sup>e \<le> \<bar>x\<bar> < 2\<^sup>e\<^sup>+\<^sup>1\<close> is searched from 0, within 1100 steps.
\<close>

definition pow2 :: "int \<Rightarrow> rat" where
  "pow2 e = (if 0 \<le> e then 2 ^ nat e else 1 / 2 ^ nat (- e))"

fun binary_exponent :: "nat \<Rightarrow> rat \<Rightarrow> int" where
  "binary_exponent 0 a = 0"
| "binary_exponent (Suc k) a =
     (if 2 \<le> a then binary_exponent k (a / 2) + 1
      else if a < 1 then binary_exponent k (a * 2) - 1
      else 0)"

definition round_half_even :: "rat \<Rightarrow> int" where
  "round_half_even y =
     (let f = \<lfloor>y\<rfloor>; d = y - of_int f
      in if d < 1 / 2 then f else if 1 / 2 < d then f + 1 else if even f then f else f + 1)"

definition double :: "rat \<Rightarrow> rat" where
  "double x =
     (if x = 0 then 0
      else (let a = \<bar>x\<bar>;
                s = pow2 (52 - binary_exponent 1100 a);
                m = round_half_even (a * s)
            in (if x < 0 then - 1 else 1) * of_int m / s))"

text \<open>\<^verbatim>\<open>Array.prototype.join(sep)\<close> on strings.\<close>

fun join :: "string \<Rightarrow> string list \<Rightarrow> string" where
  "join sep [] = []"
| "join sep [x] = x"
| "join sep (x # y # ys) = x @ sep @ join sep (y # ys)"

section \<open>Dates\<close>

text \<open>
  A \<^verbatim>\<open>Date\<close> is its time value: milliseconds since the epoch, an integer.  The raw input
  carries an ISO-8601 string that the schema has validated; the model starts from the
  instant \<^verbatim>\<open>new Date(input.tsUtc)\<close> denotes.  \<^verbatim>\<open>toISOString\<close> prints
  \<^verbatim>\<open>YYYY-MM-DDTHH:mm:ss.sssZ\<close>, with a sign and six digits for years outside 0 to 9999.
\<close>

type_synonym date = int

definition msPerDay :: int where
  "msPerDay = 86400000"

definition fixed_digits :: "nat \<Rightarrow> int \<Rightarrow> string" where
  "fixed_digits w v = map (\<lambda>i. digit_char (nat ((v div 10 ^ i) mod 10))) (rev [0..<w])"

text \<open>The civil date of a day number (days since 1970-01-01), proleptic Gregorian.\<close>

definition civil_from_days :: "int \<Rightarrow> int \<times> int \<times> int" where
  "civil_from_days z0 =
     (let z = z0 + 719468;
          era = z div 146097;
          doe = z - era * 146097;
          yoe = (doe - doe div 1460 + doe div 36524 - doe div 146096) div 365;
          y = yoe + era * 400;
          doy = doe - (365 * yoe + yoe div 4 - yoe div 100);
          mp = (5 * doy + 2) div 153;
          d = doy - (153 * mp + 2) div 5 + 1;
          m = (if mp < 10 then mp + 3 else mp - 9)
      in (if m \<le> 2 then y + 1 else y, m, d))"

definition toISOString :: "date \<Rightarrow> string" where
  "toISOString t =
     (let (y, m, d) = civil_from_days (t div msPerDay);
          ms = t mod msPerDay;
          year = (if 0 \<le> y \<and> y \<le> 9999 then fixed_digits 4 y
                  else (if y < 0 then ''-'' else ''+'') @ fixed_digits 6 \<bar>y\<bar>)
      in year @ ''-'' @ fixed_digits 2 m @ ''-'' @ fixed_digits 2 d @ ''T''
         @ fixed_digits 2 (ms div 3600000) @ '':'' @ fixed_digits 2 (ms div 60000 mod 60)
         @ '':'' @ fixed_digits 2 (ms div 1000 mod 60) @ ''.'' @ fixed_digits 3 (ms mod 1000)
         @ ''Z'')"

text \<open>util/index.ts: \<^verbatim>\<open>getDayStart\<close>, \<^verbatim>\<open>getDayEnd\<close> (\<^verbatim>\<open>setUTCHours\<close>) and \<^verbatim>\<open>formatDate\<close>.\<close>

definition getDayStart :: "date \<Rightarrow> date" where
  "getDayStart t = t - t mod msPerDay"

definition getDayEnd :: "date \<Rightarrow> date" where
  "getDayEnd t = t - t mod msPerDay + (23 * 3600000 + 59 * 60000 + 59 * 1000 + 999)"

definition formatDate :: "date \<Rightarrow> string" where
  "formatDate t = takeWhile (\<lambda>c. c \<noteq> CHR ''T'') (toISOString t)"

section \<open>Telemetry normalisation and row hashing (model/telemetry.ts)\<close>

record RawTelemetryInput =
  siteId :: string
  tsUtc :: date
  poaIrrWm2 :: "number option"
  tempC :: "number option"
  windMps :: "number option"
  acPowerKw :: "number option"
  acEnergyKWh :: "number option"
  status :: "string option"
  source :: string
  uniqKey :: "string option"

record NormalizedTelemetry = RawTelemetryInput +
  rowHash :: string

text \<open>config/index.ts: the decimal places per metric, read from the environment.\<close>

record precisionConfig =
  power :: nat
  energy :: nat
  temp :: nat
  irradiance :: nat

definition defaultPrecision :: precisionConfig where
  "defaultPrecision = \<lparr>power = 3, energy = 2, temp = 1, irradiance = 1\<rparr>"

text \<open>
  \<^verbatim>\<open>normalizeNumber\<close>: \<^verbatim>\<open>undefined\<close> stays \<^verbatim>\<open>undefined\<close>; the test \<^verbatim>\<open>!isFinite(value)\<close> never
  holds for the finite numbers of the model.
\<close>

definition normalizeNumber :: "number option \<Rightarrow> nat \<Rightarrow> number option" where
  "normalizeNumber val precision =
     (case val of None \<Rightarrow> None | Some v \<Rightarrow> Some (Number (toFixed v precision)))"

text \<open>\<^verbatim>\<open>data.x?.toString() || ''\<close>: the rendering of one optional metric.\<close>

definition render :: "number option \<Rightarrow> string" where
  "render v = or_else (map_option toString v) []"

text \<open>
  \<^verbatim>\<open>generateRowHash\<close> takes an object; its fields are the arguments here, in the order of
  the source's type: site, instant string, energy, power, irradiance, temperature, status.
\<close>

definition canonicalRow ::
  "string \<Rightarrow> string \<Rightarrow> number option \<Rightarrow> number option \<Rightarrow> number option \<Rightarrow> number option
     \<Rightarrow> string \<Rightarrow> string" where
  "canonicalRow site ts e p i t st =
     join ''|'' [site, ts, render e, render p, render i, render t, st]"

definition generateRowHash ::
  "string \<Rightarrow> string \<Rightarrow> number option \<Rightarrow> number option \<Rightarrow> number option \<Rightarrow> number option
     \<Rightarrow> string \<Rightarrow> string" where
  "generateRowHash site ts e p i t st = sha256 (canonicalRow site ts e p i t st)"

definition normalizeTelemetry :: "precisionConfig \<Rightarrow> RawTelemetryInput \<Rightarrow> NormalizedTelemetry" where
  "normalizeTelemetry cfg input =
     (let poaIrrWm2' = normalizeNumber (poaIrrWm2 input) (irradiance cfg);
          tempC' = normalizeNumber (tempC input) (temp cfg);
          windMps' = normalizeNumber (windMps input) (temp cfg);
          acPowerKw' = normalizeNumber (acPowerKw input) (power cfg);
          acEnergyKWh' = normalizeNumber (acEnergyKWh input) (energy cfg);
          rowHash' = generateRowHash (siteId input) (toISOString (tsUtc input))
                       acEnergyKWh' acPowerKw' poaIrrWm2' tempC' (or_else (status input) [])
      in \<lparr>siteId = siteId input, tsUtc = tsUtc input, poaIrrWm2 = poaIrrWm2',
          tempC = tempC', windMps = windMps', acPowerKw = acPowerKw',
          acEnergyKWh = acEnergyKWh', status = status input, source = source input,
          uniqKey = uniqKey input, rowHash = rowHash'\<rparr>)"

text \<open>
  \<^verbatim>\<open>input.x ? Math.min(Math.max(input.x, lo), hi) : undefined\<close>: the test is on the value's
  truthiness, and the number zero is falsy.
\<close>

definition clampField :: "number option \<Rightarrow> number \<Rightarrow> number \<Rightarrow> number option" where
  "clampField v lo hi =
     (case v of None \<Rightarrow> None
      | Some x \<Rightarrow> if x = 0 then None else Some (min (max x lo) hi))"

definition clampValues :: "RawTelemetryInput \<Rightarrow> RawTelemetryInput" where
  "clampValues input =
     input\<lparr>poaIrrWm2 := clampField (poaIrrWm2 input) 0 2000,
           tempC := clampField (tempC input) (- 50) 80,
           windMps := clampField (windMps input) 0 100,
           acPowerKw := clampField (acPowerKw input) 0 10000,
           acEnergyKWh := clampField (acEnergyKWh input) 0 1000\<rparr>"

text \<open>
  The three ingestion paths (HTTP push, MQTT subscriber, pull ingester): a validated reading
  is clamped, then normalised.
\<close>

definition ingest :: "precisionConfig \<Rightarrow> RawTelemetryInput \<Rightarrow> NormalizedTelemetry" where
  "ingest cfg input = normalizeTelemetry cfg (clampValues input)"




section \<open>Persistent store and daily aggregation (aggregate/index.ts)\<close>

record Site =
  site_id :: string
  site_name :: string
  country :: string
  timezone :: string
  baselineKgPerKWh :: number

record DailyAggregationResult =
  d_siteId :: string
  dayUtc :: date
  energyKWh :: number
  avoidedTco2e :: number
  rows :: nat
  merkleRoot :: "string option"

record DailyDigest = DailyAggregationResult +
  digest_id :: nat
  csvUrl :: "string option"
  jsonUrl :: "string option"
  anchored :: bool
  adapterTxId :: "string option"
  txHash :: "string option"

text \<open>
  The tables the pipeline reads and writes.  Row identifiers of digests are drawn from a
  counter, as the store assigns them on \<^verbatim>\<open>create\<close>.
\<close>

record db =
  sites :: "Site list"
  rawTelemetry :: "NormalizedTelemetry list"
  dailyDigests :: "DailyDigest list"
  nextDigestId :: nat

datatype aggregate_error = SiteNotFound string

text \<open>util/index.ts \<^verbatim>\<open>sum\<close>: \<^verbatim>\<open>values.reduce((acc, val) => acc + val, 0)\<close>.\<close>

definition sum_values :: "number list \<Rightarrow> number" where
  "sum_values vals = foldl (\<lambda>acc v. acc + v) 0 vals"

definition findSite :: "db \<Rightarrow> string \<Rightarrow> Site option" where
  "findSite st sid = find (\<lambda>s. site_id s = sid) (sites st)"

definition findTelemetry :: "db \<Rightarrow> string \<Rightarrow> date \<Rightarrow> date \<Rightarrow> NormalizedTelemetry list" where
  "findTelemetry st sid gte lte =
     sort_key tsUtc (filter (\<lambda>r. siteId r = sid \<and> gte \<le> tsUtc r \<and> tsUtc r \<le> lte) (rawTelemetry st))"

definition findDigest :: "db \<Rightarrow> string \<Rightarrow> date \<Rightarrow> DailyDigest option" where
  "findDigest st sid day = find (\<lambda>d. d_siteId d = sid \<and> dayUtc d = day) (dailyDigests st)"


text \<open>
  \<^verbatim>\<open>dailyDigest.upsert\<close> keyed by site and day: an existing row has its four aggregate
  fields overwritten, otherwise a row is created, unanchored and without references.
\<close>

definition upsertDailyDigest :: "db \<Rightarrow> DailyAggregationResult \<Rightarrow> db" where
  "upsertDailyDigest st r =
     (case findDigest st (d_siteId r) (dayUtc r) of
        Some _ \<Rightarrow>
          st\<lparr>dailyDigests :=
               map (\<lambda>d. if d_siteId d = d_siteId r \<and> dayUtc d = dayUtc r
                         then d\<lparr>energyKWh := energyKWh r, avoidedTco2e := avoidedTco2e r,
                                rows := rows r, merkleRoot := merkleRoot r\<rparr>
                         else d) (dailyDigests st)\<rparr>
      | None \<Rightarrow>
          st\<lparr>dailyDigests := dailyDigests st @
                 [\<lparr>d_siteId = d_siteId r, dayUtc = dayUtc r, energyKWh = energyKWh r,
                   avoidedTco2e = avoidedTco2e r, rows = rows r, merkleRoot = merkleRoot r,
                   digest_id = nextDigestId st, csvUrl = None, jsonUrl = None,
                   anchored = False, adapterTxId = None, txHash = None\<rparr>],
             nextDigestId := Suc (nextDigestId st)\<rparr>)"

text \<open>
  \<^verbatim>\<open>aggregateDaily\<close>: the site is looked up first (a missing site throws), then the day's
  records are read (none: \<^verbatim>\<open>null\<close>, here \<open>Inr None\<close>), then the digest is computed and
  upserted.  The result pairs the outcome with the store after the call.
\<close>

definition aggregateDaily ::
  "db \<Rightarrow> string \<Rightarrow> date \<Rightarrow> (aggregate_error + DailyAggregationResult option) \<times> db" where
  "aggregateDaily st sid day =
     (let dayStart = getDayStart day;
          dayEnd = getDayEnd day
      in case findSite st sid of
           None \<Rightarrow> (Inl (SiteNotFound sid), st)
         | Some site \<Rightarrow>
             (let telemetryRecords = findTelemetry st sid dayStart dayEnd
              in if length telemetryRecords = 0 then (Inr None, st)
                 else
                   (let energyValues = List.map_filter acEnergyKWh telemetryRecords;
                        totalEnergyKWh = sum_values energyValues;
                        avoided = (totalEnergyKWh * baselineKgPerKWh site) / 1000;
                        rowHashes = map rowHash telemetryRecords;
                        root = generateMerkleRoot rowHashes;
                        result = \<lparr>d_siteId = sid, dayUtc = dayStart,
                                   energyKWh = totalEnergyKWh, avoidedTco2e = avoided,
                                   rows = length telemetryRecords, merkleRoot = root\<rparr>
                    in (Inr (Some result), upsertDailyDigest st result))))"

section \<open>Anchoring (util/index.ts \<^verbatim>\<open>retryWithBackoff\<close>, anchor/index.ts, api/admin.ts, queue workers)\<close>

text \<open>
  The environment: \<^verbatim>\<open>ANCHOR_ENABLED\<close> and the optional adapter endpoint and key.
\<close>

record env =
  ANCHOR_ENABLED :: bool
  ADAPTER_API_URL :: "string option"
  ADAPTER_API_KEY :: "string option"

text \<open>\<^verbatim>\<open>!v\<close> on an optional string: absent or empty.\<close>

definition falsy :: "string option \<Rightarrow> bool" where
  "falsy v = (v = None \<or> v = Some [])"

text \<open>
  The outside world of an anchor call.  A request either is rejected in transport or gets an
  HTTP response (\<^verbatim>\<open>ok\<close>, status, status text, body); the body either fails to parse as
  JSON or carries the two optional references.  The adapter's answer to a request may depend
  on how many requests came before.  The trace records, in order, every request sent and
  every back-off sleep (in milliseconds).
\<close>

record request =
  url :: string
  authorization :: string
  topic :: string
  hash :: "string option"
  uri :: "string option"

datatype json_body = BadJson string | AnchorJson "string option" "string option"

datatype fetch_outcome = FetchRejected string | HttpResponse bool nat string json_body

datatype event = Fetch request | Sleep nat

record world =
  adapter :: "nat \<Rightarrow> request \<Rightarrow> fetch_outcome"
  trace :: "event list"

fun is_fetch :: "event \<Rightarrow> bool" where
  "is_fetch (Fetch _) = True"
| "is_fetch (Sleep _) = False"

definition nfetch :: "world \<Rightarrow> nat" where
  "nfetch w = length (filter is_fetch (trace w))"

definition fetch :: "request \<Rightarrow> world \<Rightarrow> fetch_outcome \<times> world" where
  "fetch req w = (adapter w (nfetch w) req, w\<lparr>trace := trace w @ [Fetch req]\<rparr>)"

definition sleep :: "nat \<Rightarrow> world \<Rightarrow> world" where
  "sleep ms w = w\<lparr>trace := trace w @ [Sleep ms]\<rparr>"

text \<open>
  \<^verbatim>\<open>retryWithBackoff\<close>: the \<^verbatim>\<open>for\<close> loop from \<^verbatim>\<open>attempt\<close> on.  An error is its message.
  Leaving the loop by its condition throws \<^verbatim>\<open>lastError\<close>; from attempt 0 the loop is only
  ever left by \<^verbatim>\<open>return\<close> or \<^verbatim>\<open>break\<close>.
\<close>

function retryLoop ::
  "(world \<Rightarrow> (string + 'a) \<times> world) \<Rightarrow> nat \<Rightarrow> nat \<Rightarrow> nat \<Rightarrow> string \<Rightarrow> world
     \<Rightarrow> (string + 'a) \<times> world" where
  "retryLoop fn maxRetries baseDelay attempt lastError w =
     (if attempt \<le> maxRetries
      then (case fn w of
              (Inr v, w') \<Rightarrow> (Inr v, w')
            | (Inl e, w') \<Rightarrow>
                if attempt = maxRetries then (Inl e, w')
                else retryLoop fn maxRetries baseDelay (attempt + 1) e
                       (sleep (baseDelay * 2 ^ attempt) w'))
      else (Inl lastError, w))"
  by pat_completeness auto
termination
  by (relation "measure (\<lambda>(fn, maxRetries, baseDelay, attempt, lastError, w).
                          Suc maxRetries - attempt)") auto

declare retryLoop.simps [simp del]

definition retryWithBackoff ::
  "(world \<Rightarrow> (string + 'a) \<times> world) \<Rightarrow> nat \<Rightarrow> nat \<Rightarrow> world \<Rightarrow> (string + 'a) \<times> world" where
  "retryWithBackoff fn maxRetries baseDelay w = retryLoop fn maxRetries baseDelay 0 [] w"

record AnchorResult =
  success :: bool
  r_adapterTxId :: "string option"
  r_txHash :: "string option"
  error :: "string option"

text \<open>The callback handed to \<^verbatim>\<open>retryWithBackoff\<close>: one POST; a non-ok response throws.\<close>

definition postAnchor :: "request \<Rightarrow> world \<Rightarrow> (string + json_body) \<times> world" where
  "postAnchor req w =
     (case fetch req w of
        (FetchRejected msg, w') \<Rightarrow> (Inl msg, w')
      | (HttpResponse ok st statusText body, w') \<Rightarrow>
          if \<not> ok
          then (Inl (''Adapter API returned '' @ digits (int st) @ '': '' @ statusText), w')
          else (Inr body, w'))"

definition anchorRequest :: "env \<Rightarrow> DailyDigest \<Rightarrow> request" where
  "anchorRequest e digest =
     \<lparr>url = or_else (ADAPTER_API_URL e) [] @ ''/v1/anchor'',
      authorization = ''Bearer '' @ or_else (ADAPTER_API_KEY e) [],
      topic = ''IOT:'' @ d_siteId digest @ '':'' @ formatDate (dayUtc digest),
      hash = merkleRoot digest,
      uri = (if \<not> falsy (csvUrl digest) then csvUrl digest
             else if \<not> falsy (jsonUrl digest) then jsonUrl digest else None)\<rparr>"

definition anchorDigest :: "env \<Rightarrow> DailyDigest \<Rightarrow> world \<Rightarrow> AnchorResult \<times> world" where
  "anchorDigest e digest w =
     (if \<not> ANCHOR_ENABLED e
      then (\<lparr>success = True, r_adapterTxId = Some ''disabled'', r_txHash = Some ''disabled'',
             error = None\<rparr>, w)
      else if falsy (ADAPTER_API_URL e) \<or> falsy (ADAPTER_API_KEY e)
      then (\<lparr>success = False, r_adapterTxId = None, r_txHash = None,
             error = Some ''Adapter API not configured''\<rparr>, w)
      else (case retryWithBackoff (postAnchor (anchorRequest e digest)) 3 1000 w of
              (Inl msg, w') \<Rightarrow>
                (\<lparr>success = False, r_adapterTxId = None, r_txHash = None, error = Some msg\<rparr>, w')
            | (Inr (BadJson msg), w') \<Rightarrow>
                (\<lparr>success = False, r_adapterTxId = None, r_txHash = None, error = Some msg\<rparr>, w')
            | (Inr (AnchorJson a t), w') \<Rightarrow>
                (\<lparr>success = True, r_adapterTxId = a, r_txHash = t, error = None\<rparr>, w')))"

text \<open>\<^verbatim>\<open>dailyDigest.update\<close> by row identifier with the anchor references.\<close>

definition markAnchored :: "db \<Rightarrow> nat \<Rightarrow> string option \<Rightarrow> string option \<Rightarrow> db" where
  "markAnchored st i a t =
     st\<lparr>dailyDigests :=
          map (\<lambda>d. if digest_id d = i
                    then d\<lparr>anchored := True, adapterTxId := a, txHash := t\<rparr> else d)
              (dailyDigests st)\<rparr>"

text \<open>
  The handler of \<^verbatim>\<open>POST /v1/anchor\<close> for a site and a parsed day: 404 without a digest, the
  stored references when the digest is anchored already, else one call of the anchor service
  and, on success, the update of the digest.
\<close>

datatype anchor_reply =
    DigestNotFound
  | AlreadyAnchored "string option" "string option"
  | AnchoredNow "string option" "string option"
  | AnchorFailed "string option"

definition anchorRoute :: "env \<Rightarrow> string \<Rightarrow> date \<Rightarrow> db \<times> world \<Rightarrow> anchor_reply \<times> db \<times> world" where
  "anchorRoute e sid day sw =
     (case sw of (st, w) \<Rightarrow>
      (case findDigest st sid day of
         None \<Rightarrow> (DigestNotFound, st, w)
       | Some digest \<Rightarrow>
           if anchored digest then (AlreadyAnchored (adapterTxId digest) (txHash digest), st, w)
           else (case anchorDigest e digest w of (res, w') \<Rightarrow>
                   if success res
                   then (AnchoredNow (r_adapterTxId res) (r_txHash res),
                         markAnchored st (digest_id digest) (r_adapterTxId res) (r_txHash res), w')
                   else (AnchorFailed (error res), st, w'))))"



text \<open>
  For stating what a call did: whether the adapter answers its \<open>n\<close>-th request with an ok
  response, and the events of \<open>k\<close> failed attempts, each followed by its back-off sleep, and
  one more attempt.
\<close>

definition accepted :: "world \<Rightarrow> request \<Rightarrow> nat \<Rightarrow> bool" where
  "accepted w req n =
     (case adapter w n req of FetchRejected _ \<Rightarrow> False | HttpResponse ok _ _ _ \<Rightarrow> ok)"

definition backoff_trace :: "request \<Rightarrow> nat \<Rightarrow> nat \<Rightarrow> event list" where
  "backoff_trace req baseDelay k =
     concat (map (\<lambda>i. [Fetch req, Sleep (baseDelay * 2 ^ i)]) [0..<k]) @ [Fetch req]"

section \<open>A concrete store\<close>

text \<open>
  The site PRJ001 of the default configuration (baseline 0.708 kg/kWh) with three readings
  on 2024-01-15, of 1, 2 and 3 kWh, and no digest yet.
\<close>

definition demo_site :: Site where
  "demo_site = \<lparr>site_id = ''PRJ001'', site_name = ''Solar Farm Alpha'', country = ''India'',
                 timezone = ''Asia/Kolkata'', baselineKgPerKWh = 708 / 1000\<rparr>"

definition demo_reading :: "date \<Rightarrow> number \<Rightarrow> string \<Rightarrow> NormalizedTelemetry" where
  "demo_reading t e h =
     \<lparr>siteId = ''PRJ001'', tsUtc = t, poaIrrWm2 = None, tempC = None, windMps = None,
      acPowerKw = None, acEnergyKWh = Some e, status = Some ''OK'', source = ''http'',
      uniqKey = None, rowHash = h\<rparr>"

definition demo_db :: db where
  "demo_db = \<lparr>sites = [demo_site],
               rawTelemetry = [demo_reading 1705320000000 1 ''h1'',
                               demo_reading 1705320900000 2 ''h2'',
                               demo_reading 1705321800000 3 ''h3''],
               dailyDigests = [], nextDigestId = 0\<rparr>"

text \<open>The reading of the repository's integrity test.\<close>

definition demo_input :: RawTelemetryInput where
  "demo_input =
     \<lparr>siteId = ''PRJ001'', tsUtc = 1705320000000, poaIrrWm2 = Some (800123456 / 1000000),
      tempC = Some (25678901 / 1000000), windMps = None,
      acPowerKw = Some (2345678 / 1000000), acEnergyKWh = Some (1234567 / 1000000),
      status = Some ''OK'', source = ''http'', uniqKey = None\<rparr>"

text \<open>
  An environment with anchoring enabled and configured, one without a key, a stored
  digest of the site, and two adapters: one that accepts every request, one that rejects
  the first two requests in transport and accepts from the third on.
\<close>

definition demo_env :: env where
  "demo_env = \<lparr>ANCHOR_ENABLED = True, ADAPTER_API_URL = Some ''https://adapter.example'',
                ADAPTER_API_KEY = Some ''secret''\<rparr>"

definition demo_env_unconfigured :: env where
  "demo_env_unconfigured = \<lparr>ANCHOR_ENABLED = True,
                             ADAPTER_API_URL = Some ''https://adapter.example'',
                             ADAPTER_API_KEY = None\<rparr>"

definition demo_digest :: DailyDigest where
  "demo_digest = \<lparr>d_siteId = ''PRJ001'', dayUtc = 1705276800000, energyKWh = 6,
                   avoidedTco2e = 4248 / 1000000, rows = 3, merkleRoot = Some ''00ff'',
                   digest_id = 0, csvUrl = None, jsonUrl = None, anchored = False,
                   adapterTxId = None, txHash = None\<rparr>"



definition demo_world_flaky :: world where
  "demo_world_flaky =
     \<lparr>adapter = (\<lambda>n req. if n < 2 then FetchRejected ''ECONNRESET''
                          else HttpResponse True 200 ''OK''
                                 (AnchorJson (Some ''tx-1'') (Some ''0xabc''))),
      trace = []\<rparr>"

section \<open>Properties of the digest\<close>

lemma length_hex32: "length (hex32 w) = 8"
  by (simp add: hex32_def)

lemma length_state_words: "length (state_words s) = 8"
  by (cases s rule: state_words.cases) simp

lemma length_concat_hex32: "length (concat (map hex32 ws)) = 8 * length ws"
  by (induction ws) (simp_all add: length_hex32)

lemma length_sha256: "length (sha256 s) = 64"
  by (simp add: sha256_def length_concat_hex32 length_state_words)




lemma sha256_not_Nil: "sha256 s \<noteq> []"
  using length_sha256 [of s] by auto

text \<open>Evaluating the digest of a concrete string by rewriting.\<close>

lemma replicate_numeral: "replicate (numeral v) x = x # replicate (numeral v - 1) x"
  by (simp add: numeral_eq_Suc)

lemmas sha_eval = pad_def be64_def replicate_numeral blocks.simps K256_def H256_def ssig0_def
  ssig1_def bsig0_def bsig1_def rotr_def shr_def not32_def add32_def ch_def maj_def compress_def
  hex32_def hexdigit_def hex_alphabet_def sha256_def

lemma sha256_abc:
  "sha256 ''abc'' = ''ba7816bf8f01cfea414140de5dae2223b00361a396177a9cb410ff61f20015ad''"
  by (simp add: sha_eval)

lemma sha256_hash1hash2:
  "sha256 ''hash1hash2'' = ''d8eab8000c5826fbf21e6340c96a911c7cf362c054695b73cb1a80ad0dac1cb0''"
  by (simp add: sha_eval)

lemma sha256_hash2hash1:
  "sha256 ''hash2hash1'' = ''840e075389de25f182d890cef8e08f6acfb7f6c52f65d8d28471635ed1ca5524''"
  by (simp add: sha_eval)

section \<open>Properties of the Merkle tree\<close>

lemma sort_mset_cong: "mset P = mset (L :: string list) \<Longrightarrow> sort P = sort L"
  by (metis mset_sort properties_for_sort sorted_sort)

lemma buildLevels_last_length:
  "xs \<noteq> [] \<Longrightarrow> length (last (xs # buildLevels xs)) = 1"
proof (induction xs rule: buildLevels.induct)
  case (1 currentLevel)
  show ?case
  proof (cases "1 < length currentLevel")
    case True
    then have ne: "pairLevel currentLevel \<noteq> []"
      by (cases currentLevel rule: pairLevel.cases) auto
    from True have "buildLevels currentLevel
        = pairLevel currentLevel # buildLevels (pairLevel currentLevel)"
      by (simp add: buildLevels.simps [of currentLevel])
    with "1.IH" [OF True ne] show ?thesis by simp
  next
    case False
    with "1.prems" have "length currentLevel = 1"
      by (cases currentLevel) auto
    moreover from False have "buildLevels currentLevel = []"
      by (simp add: buildLevels.simps [of currentLevel])
    ultimately show ?thesis by simp
  qed
qed

lemma generateMerkleRoot_Some:
  assumes "ls \<noteq> []"
  shows "\<exists>r. generateMerkleRoot ls = Some r"
proof -
  have ne: "sort ls \<noteq> []"
    using assms by (metis length_sort length_0_conv)
  from buildLevels_last_length [OF ne]
  obtain r where "last (sort ls # buildLevels (sort ls)) = [r]"
    by (cases "last (sort ls # buildLevels (sort ls))") auto
  then show ?thesis
    by (simp add: generateMerkleRoot_def buildMerkleTree_def newMerkleTree_def getRoot_def
        buildTree_def)
qed

lemma generateMerkleRoot_Nil: "generateMerkleRoot [] = None"
  by (simp add: generateMerkleRoot_def buildMerkleTree_def newMerkleTree_def getRoot_def
      buildTree_def buildLevels.simps)

lemma newMerkleTree_Nil: "newMerkleTree [] = \<lparr>leaves = [], tree = [[]]\<rparr>"
  by (simp add: newMerkleTree_def buildTree_def buildLevels.simps)

text \<open>
  Claim C3.  The Merkle root does not depend on the order of the leaf hashes: two lists
  with the same elements, each as often (a list and any permutation of it), have the same
  root, because the constructor sorts the leaves first.
\<close>

theorem C3_root_order_independent:
  "mset P = mset L \<Longrightarrow> generateMerkleRoot P = generateMerkleRoot L"
  using sort_mset_cong [of P L]
  by (simp add: generateMerkleRoot_def buildMerkleTree_def newMerkleTree_def)

theorem C3_root_order_independent_witness:
  "mset [''b'', ''c'', ''a''] = mset [''a'', ''b'', ''c'']
   \<and> generateMerkleRoot [''b'', ''c'', ''a''] = generateMerkleRoot [''a'', ''b'', ''c'']"
  using C3_root_order_independent [of "[''b'', ''c'', ''a'']" "[''a'', ''b'', ''c'']"]
  by simp

subsection \<open>Merkle proofs\<close>

lemma merkle_two_leaves:
  "newMerkleTree [''hash1'', ''hash2'']
     = \<lparr>leaves = [''hash1'', ''hash2''],
        tree = [[''hash1'', ''hash2''], [sha256 ''hash1hash2'']]\<rparr>"
  by (simp add: newMerkleTree_def buildTree_def buildLevels.simps or_else_def)

text \<open>
  Claim C1, at the two leaves of the repository's test and the second of them.  The claim
  says that the proof generated for a leaf of the tree verifies against the root.  The
  proof of \<^verbatim>\<open>hash2\<close> is its left sibling \<^verbatim>\<open>hash1\<close>; \<^verbatim>\<open>verifyProof\<close> always appends the
  sibling to the current value, so it hashes \<^verbatim>\<open>hash2hash1\<close> where the tree hashed
  \<^verbatim>\<open>hash1hash2\<close>, and rejects the proof.
\<close>

theorem C1_proof_of_right_leaf_rejected:
  "getRoot (newMerkleTree [''hash1'', ''hash2''])
     = Some ''d8eab8000c5826fbf21e6340c96a911c7cf362c054695b73cb1a80ad0dac1cb0''
   \<and> getProof (newMerkleTree [''hash1'', ''hash2'']) ''hash2'' = Inr [''hash1'']
   \<and> \<not> verifyProof ''hash2'' [''hash1'']
         ''d8eab8000c5826fbf21e6340c96a911c7cf362c054695b73cb1a80ad0dac1cb0''"
  by (simp add: merkle_two_leaves getRoot_def getProof_def verifyProof_def
      sha256_hash1hash2 sha256_hash2hash1)

text \<open>
  For two distinct leaves the proof of the larger one verifies only if the digests of the
  two concatenations, in either order, coincide.
\<close>

lemma two_leaves_right_proof:
  assumes "a < b"
  shows "getProof (newMerkleTree [a, b]) b = Inr [a]"
    and "getRoot (newMerkleTree [a, b]) = Some (sha256 (a @ b))"
    and "verifyProof b [a] (sha256 (a @ b)) \<longleftrightarrow> sha256 (b @ a) = sha256 (a @ b)"
proof -
  from assms have ne: "b \<noteq> []" "a \<noteq> b"
    by auto
  from assms have le: "a \<le> b"
    by (rule less_imp_le)
  then have s: "sort [a, b] = [a, b]"
    by simp
  have t: "newMerkleTree [a, b] = \<lparr>leaves = [a, b], tree = [[a, b], [sha256 (a @ b)]]\<rparr>"
    using ne le by (simp add: newMerkleTree_def buildTree_def buildLevels.simps or_else_def)
  show "getProof (newMerkleTree [a, b]) b = Inr [a]"
    using ne by (simp add: t getProof_def)
  show "getRoot (newMerkleTree [a, b]) = Some (sha256 (a @ b))"
    by (simp add: t getRoot_def)
  show "verifyProof b [a] (sha256 (a @ b)) \<longleftrightarrow> sha256 (b @ a) = sha256 (a @ b)"
    by (simp add: verifyProof_def)
qed

subsection \<open>The proofs that do verify\<close>

text \<open>
  The proof of the smallest leaf, which is the leftmost node of every level on its path,
  verifies against the root: there the order \<^verbatim>\<open>verifyProof\<close> hashes in is the order
  \<^verbatim>\<open>buildTree\<close> used.
\<close>

lemma pairLevel_entries: "h \<in> set (pairLevel xs) \<Longrightarrow> h \<noteq> []"
  by (induction xs rule: pairLevel.induct)
     (auto simp: sha256_not_Nil sha256_not_Nil [THEN not_sym])

lemma leftmost_path:
  assumes "xs \<noteq> []" and "1 < length xs \<longrightarrow> xs ! 1 = [] \<longrightarrow> xs ! 0 = []"
  shows "fold (\<lambda>sibling hash. sha256 (hash @ sibling))
           (proofLoop (butlast (xs # buildLevels xs)) 0) (hd xs)
         = hd (last (xs # buildLevels xs))"
  using assms
proof (induction xs rule: buildLevels.induct)
  case (1 currentLevel)
  show ?case
  proof (cases "1 < length currentLevel")
    case False
    then have "buildLevels currentLevel = []"
      by (simp add: buildLevels.simps [of currentLevel])
    then show ?thesis by simp
  next
    case True
    then obtain l r rest where xs: "currentLevel = l # r # rest"
      by (cases currentLevel rule: pairLevel.cases) auto
    let ?next = "pairLevel currentLevel"
    have bl: "buildLevels currentLevel = ?next # buildLevels ?next"
      using True by (simp add: buildLevels.simps [of currentLevel])
    have ne: "?next \<noteq> []"
      by (simp add: xs)
    have q: "1 < length ?next \<longrightarrow> ?next ! 1 = [] \<longrightarrow> ?next ! 0 = []"
    proof (intro impI)
      assume "1 < length ?next" and e: "?next ! 1 = []"
      then have "?next ! 1 \<in> set ?next"
        by (intro nth_mem) simp
      with e pairLevel_entries [of "[]" currentLevel] show "?next ! 0 = []"
        by simp
    qed
    have hd_next: "hd ?next = sha256 (l @ r)"
    proof (cases "r = []")
      case True
      with "1.prems"(2) xs have "l = []" by simp
      with True show ?thesis by (simp add: xs or_else_def)
    next
      case False
      then show ?thesis by (simp add: xs or_else_def)
    qed
    define rest_levels where "rest_levels = butlast (?next # buildLevels ?next)"
    have bt: "butlast (currentLevel # buildLevels currentLevel) = currentLevel # rest_levels"
      unfolding rest_levels_def bl by simp
    have pl: "proofLoop (currentLevel # rest_levels) 0 = r # proofLoop rest_levels 0"
      by (simp add: xs)
    have "fold (\<lambda>sibling hash. sha256 (hash @ sibling))
            (proofLoop (butlast (currentLevel # buildLevels currentLevel)) 0) (hd currentLevel)
          = fold (\<lambda>sibling hash. sha256 (hash @ sibling)) (proofLoop rest_levels 0)
              (sha256 (l @ r))"
      unfolding bt pl by (simp add: xs)
    also have "\<dots> = hd (last (?next # buildLevels ?next))"
      using "1.IH" [OF True ne q] hd_next unfolding rest_levels_def by simp
    also have "\<dots> = hd (last (currentLevel # buildLevels currentLevel))"
      unfolding bl by simp
    finally show ?thesis .
  qed
qed

lemma sorted_second_empty:
  assumes "sorted (xs :: string list)" and "1 < length xs" and "xs ! 1 = []"
  shows "xs ! 0 = []"
proof -
  from assms(1,2) have "xs ! 0 \<le> xs ! 1"
    by (simp add: sorted_iff_nth_mono)
  with assms(3) show ?thesis by simp
qed

lemma smallest_leaf_proof_verifies:
  assumes "ls \<noteq> []"
  shows "\<exists>p r. getProof (newMerkleTree ls) (hd (sort ls)) = Inr p
             \<and> getRoot (newMerkleTree ls) = Some r
             \<and> verifyProof (hd (sort ls)) p r"
proof -
  let ?s = "sort ls"
  have ne: "?s \<noteq> []"
    using assms by (metis length_sort length_0_conv)
  then have idx: "indexOf ?s (hd ?s) = Some 0"
    by (cases ?s) simp_all
  have q: "1 < length ?s \<longrightarrow> ?s ! 1 = [] \<longrightarrow> ?s ! 0 = []"
    using sorted_second_empty [of ?s] by simp
  from buildLevels_last_length [OF ne]
  obtain r where r: "last (?s # buildLevels ?s) = [r]"
    by (cases "last (?s # buildLevels ?s)") auto
  have "getProof (newMerkleTree ls) (hd ?s) = Inr (proofLoop (butlast (?s # buildLevels ?s)) 0)"
    by (simp add: getProof_def newMerkleTree_def buildTree_def idx)
  moreover have "getRoot (newMerkleTree ls) = Some r"
    using r by (simp add: getRoot_def newMerkleTree_def buildTree_def)
  moreover have "verifyProof (hd ?s) (proofLoop (butlast (?s # buildLevels ?s)) 0) r"
    using leftmost_path [OF ne q] r by (simp add: verifyProof_def)
  ultimately show ?thesis by blast
qed

section \<open>Rounding: what \<^verbatim>\<open>Number(value.toFixed(precision))\<close> computes\<close>

lemma digits_not_Nil: "digits n \<noteq> []"
  by (subst digits.simps) simp

lemma digit_val_digit_char: "d < 10 \<Longrightarrow> digit_val (digit_char d) = int d"
proof -
  have "\<forall>d \<in> set [0..<10]. digit_val (digit_char d) = int d"
    by code_simp
  then show "d < 10 \<Longrightarrow> digit_val (digit_char d) = int d"
    by simp
qed

lemma digit_char_neq: "d < 10 \<Longrightarrow> digit_char d \<noteq> CHR ''.'' \<and> digit_char d \<noteq> CHR ''-''"
proof -
  have "\<forall>d \<in> set [0..<10]. digit_char d \<noteq> CHR ''.'' \<and> digit_char d \<noteq> CHR ''-''"
    by code_simp
  then show "d < 10 \<Longrightarrow> digit_char d \<noteq> CHR ''.'' \<and> digit_char d \<noteq> CHR ''-''"
    by simp
qed

lemma parse_nat_snoc: "parse_nat (cs @ [c]) = 10 * parse_nat cs + digit_val c"
  by (simp add: parse_nat_def)

lemma parse_nat_digits: "0 \<le> n \<Longrightarrow> parse_nat (digits n) = n"
proof (induction n rule: digits.induct)
  case (1 n)
  show ?case
  proof (cases "n < 10")
    case True
    with "1.prems" have "digits n = [digit_char (nat n)]" "nat n < 10"
      by (simp_all add: digits.simps [of n])
    with "1.prems" show ?thesis
      by (simp add: parse_nat_def digit_val_digit_char)
  next
    case False
    then have d: "digits n = digits (n div 10) @ [digit_char (nat (n mod 10))]"
      by (simp add: digits.simps [of n])
    have "nat (n mod 10) < 10" by simp
    then have "digit_val (digit_char (nat (n mod 10))) = n mod 10"
      by (simp add: digit_val_digit_char)
    moreover have "parse_nat (digits (n div 10)) = n div 10"
      using "1.IH" [OF False] "1.prems" by simp
    ultimately show ?thesis
      by (simp add: d parse_nat_snoc)
  qed
qed

lemma digits_chars: "0 \<le> n \<Longrightarrow> c \<in> set (digits n) \<Longrightarrow> c \<noteq> CHR ''.'' \<and> c \<noteq> CHR ''-''"
proof (induction n rule: digits.induct)
  case (1 n)
  show ?case
  proof (cases "n < 10")
    case True
    with "1.prems" have "c = digit_char (nat n)" "nat n < 10"
      by (simp_all add: digits.simps [of n])
    then show ?thesis by (simp add: digit_char_neq)
  next
    case False
    then have d: "digits n = digits (n div 10) @ [digit_char (nat (n mod 10))]"
      by (simp add: digits.simps [of n])
    have "nat (n mod 10) < 10" by simp
    then have last: "digit_char (nat (n mod 10)) \<noteq> CHR ''.'' \<and> digit_char (nat (n mod 10)) \<noteq> CHR ''-''"
      by (rule digit_char_neq)
    from "1.prems" d consider "c \<in> set (digits (n div 10))" | "c = digit_char (nat (n mod 10))"
      by auto
    then show ?thesis
    proof cases
      case 1
      with "1.IH" [OF False] "1.prems"(1) show ?thesis by simp
    next
      case 2
      with last show ?thesis by simp
    qed
  qed
qed

lemma parse_nat_append_gen:
  "foldl (\<lambda>acc c. 10 * acc + digit_val c) a cs
     = a * 10 ^ length cs + foldl (\<lambda>acc c. 10 * acc + digit_val c) 0 cs"
proof -
  define f where "f = (\<lambda>acc c. 10 * acc + digit_val c)"
  have "foldl f a cs = a * 10 ^ length cs + foldl f 0 cs" for a
  proof (induction cs arbitrary: a)
    case Nil
    show ?case by simp
  next
    case (Cons c cs)
    have "foldl f a (c # cs) = foldl f (10 * a + digit_val c) cs"
      by (simp add: f_def)
    also have "\<dots> = (10 * a + digit_val c) * 10 ^ length cs + foldl f 0 cs"
      by (rule Cons.IH)
    finally have l: "foldl f a (c # cs) = (10 * a + digit_val c) * 10 ^ length cs + foldl f 0 cs" .
    have "foldl f 0 (c # cs) = foldl f (digit_val c) cs"
      by (simp add: f_def)
    also have "\<dots> = digit_val c * 10 ^ length cs + foldl f 0 cs"
      by (rule Cons.IH)
    finally have r: "foldl f 0 (c # cs) = digit_val c * 10 ^ length cs + foldl f 0 cs" .
    show ?case
      unfolding l r by (simp add: algebra_simps)
  qed
  then show ?thesis
    unfolding f_def .
qed

lemma parse_nat_append: "parse_nat (as @ bs) = parse_nat as * 10 ^ length bs + parse_nat bs"
  unfolding parse_nat_def foldl_append by (rule parse_nat_append_gen)

lemma parse_nat_zeros: "parse_nat (replicate k CHR ''0'' @ cs) = parse_nat cs"
proof -
  have z: "digit_val CHR ''0'' = 0"
    by (simp add: digit_val_def)
  have "parse_nat (replicate k CHR ''0'') = 0"
  proof (induction k)
    case 0
    show ?case by (simp add: parse_nat_def)
  next
    case (Suc k)
    have "replicate (Suc k) CHR ''0'' = replicate k CHR ''0'' @ [CHR ''0'']"
      by (simp add: replicate_append_same)
    then show ?case
      by (simp only: parse_nat_snoc Suc.IH z)
  qed
  then show ?thesis
    by (simp add: parse_nat_append)
qed
lemma Number_plain:
  assumes chars: "\<forall>c \<in> set ip. c \<noteq> CHR ''.'' \<and> c \<noteq> CHR ''-''" and ne: "ip \<noteq> []"
  shows "Number (ip @ CHR ''.'' # fp) = of_int (parse_nat ip) + of_int (parse_nat fp) / 10 ^ length fp"
    and "Number (CHR ''-'' # ip @ CHR ''.'' # fp)
           = - (of_int (parse_nat ip) + of_int (parse_nat fp) / 10 ^ length fp)"
    and "Number ip = of_int (parse_nat ip)"
    and "Number (CHR ''-'' # ip) = - of_int (parse_nat ip)"
proof -
  from ne chars have hd: "hd ip \<noteq> CHR ''-''"
    by (cases ip) auto
  have tw: "takeWhile (\<lambda>c. c \<noteq> CHR ''.'') (ip @ CHR ''.'' # fp) = ip"
    using chars by (simp add: takeWhile_append2)
  have tw2: "takeWhile (\<lambda>c. c \<noteq> CHR ''.'') ip = ip"
    using chars by (simp add: takeWhile_eq_all_conv)
  show "Number (ip @ CHR ''.'' # fp) = of_int (parse_nat ip) + of_int (parse_nat fp) / 10 ^ length fp"
    using hd ne by (simp add: Number_def Let_def tw)
  show "Number (CHR ''-'' # ip @ CHR ''.'' # fp)
           = - (of_int (parse_nat ip) + of_int (parse_nat fp) / 10 ^ length fp)"
    by (simp add: Number_def Let_def tw)
  show "Number ip = of_int (parse_nat ip)"
    using hd ne by (simp add: Number_def Let_def tw2 parse_nat_def)
  show "Number (CHR ''-'' # ip) = - of_int (parse_nat ip)"
    by (simp add: Number_def Let_def tw2 parse_nat_def)
qed

lemma Number_toFixed: "Number (toFixed x f) = round_decimal x f"
proof -
  define n where "n = \<lfloor>\<bar>x\<bar> * 10 ^ f + 1 / 2\<rfloor>"
  define m where "m = digits n"
  define m' where "m' = (if length m \<le> f then replicate (f + 1 - length m) CHR ''0'' @ m else m)"
  have n0: "0 \<le> n"
    unfolding n_def by simp
  have mne: "m \<noteq> []"
    unfolding m_def by (rule digits_not_Nil)
  have mch: "\<forall>c \<in> set m. c \<noteq> CHR ''.'' \<and> c \<noteq> CHR ''-''"
    unfolding m_def using digits_chars [OF n0] by blast
  have pm: "parse_nat m = n"
    unfolding m_def by (rule parse_nat_digits [OF n0])
  show ?thesis
  proof (cases "f = 0")
    case True
    have "toFixed x f = (if x < 0 then ''-'' else []) @ m"
      by (simp add: toFixed_def Let_def True m_def n_def)
    then show ?thesis
      using Number_plain(3,4) [OF mch mne] pm
      by (simp add: round_decimal_def True n_def)
  next
    case False
    have m'ch: "\<forall>c \<in> set m'. c \<noteq> CHR ''.'' \<and> c \<noteq> CHR ''-''"
      unfolding m'_def using mch by auto
    have len: "f < length m'"
      unfolding m'_def by auto
    have pm': "parse_nat m' = n"
      unfolding m'_def using pm by (simp add: parse_nat_zeros)
    define ip where "ip = take (length m' - f) m'"
    define fp where "fp = drop (length m' - f) m'"
    have ipne: "ip \<noteq> []"
      unfolding ip_def using len by auto
    have ipch: "\<forall>c \<in> set ip. c \<noteq> CHR ''.'' \<and> c \<noteq> CHR ''-''"
      unfolding ip_def using m'ch by (auto dest: in_set_takeD)
    have lfp: "length fp = f"
      unfolding fp_def using len by simp
    have "parse_nat (ip @ fp) = n"
      unfolding ip_def fp_def using pm' by simp
    then have split: "parse_nat ip * 10 ^ f + parse_nat fp = n"
      by (simp add: parse_nat_append lfp)
    have val: "of_int (parse_nat ip) + of_int (parse_nat fp) / 10 ^ f = (of_int n :: rat) / 10 ^ f"
    proof -
      have "(of_int n :: rat) = of_int (parse_nat ip) * 10 ^ f + of_int (parse_nat fp)"
        using split [symmetric] by simp
      then show ?thesis
        by (simp add: field_simps)
    qed
    have "toFixed x f = (if x < 0 then ''-'' else []) @ ip @ CHR ''.'' # fp"
      using False
      by (simp add: toFixed_def Let_def ip_def fp_def m'_def m_def n_def)
    then show ?thesis
      using Number_plain(1,2) [OF ipch ipne, of fp] val
      by (simp add: round_decimal_def lfp n_def)
  qed
qed

lemma normalizeNumber_rounds: "normalizeNumber (Some x) p = Some (round_decimal x p)"
  by (simp add: normalizeNumber_def Number_toFixed)

text \<open>The rounded value has at most \<open>p\<close> decimals, is nearest to the value and stays in an
  integer range the value lies in.\<close>

lemma round_decimal_scaled:
  "round_decimal x p * 10 ^ p = (if x < 0 then - 1 else 1) * of_int \<lfloor>\<bar>x\<bar> * 10 ^ p + 1 / 2\<rfloor>"
  by (simp add: round_decimal_def)

lemma round_decimal_nearest: "\<bar>round_decimal x p - x\<bar> \<le> 1 / (2 * 10 ^ p)"
proof -
  define y where "y = \<bar>x\<bar> * 10 ^ p"
  have fl: "of_int \<lfloor>y + 1 / 2\<rfloor> \<le> y + 1 / 2" "y + 1 / 2 < of_int \<lfloor>y + 1 / 2\<rfloor> + 1"
    by linarith+
  then have d: "\<bar>of_int \<lfloor>y + 1 / 2\<rfloor> - y\<bar> \<le> 1 / 2"
    by linarith
  have pos: "(0 :: rat) < 10 ^ p" by simp
  have "\<bar>round_decimal x p - x\<bar> = \<bar>of_int \<lfloor>y + 1 / 2\<rfloor> / 10 ^ p - \<bar>x\<bar>\<bar>"
    by (auto simp: round_decimal_def y_def abs_if)
  also have "\<dots> = \<bar>(of_int \<lfloor>y + 1 / 2\<rfloor> - y) / 10 ^ p\<bar>"
    by (simp add: y_def diff_divide_distrib)
  also have "\<dots> = \<bar>of_int \<lfloor>y + 1 / 2\<rfloor> - y\<bar> / 10 ^ p"
    by (simp add: abs_divide)
  also have "\<dots> \<le> (1 / 2) / 10 ^ p"
    by (rule divide_right_mono [OF d]) simp
  finally show ?thesis by simp
qed

lemma round_decimal_range:
  assumes "of_int lo \<le> x" and "x \<le> of_int hi"
  shows "of_int lo \<le> round_decimal x p \<and> round_decimal x p \<le> of_int hi"
proof -
  have pos: "(0 :: rat) < 10 ^ p" by simp
  have up: "of_int \<lfloor>y * 10 ^ p + 1 / 2\<rfloor> / 10 ^ p \<le> (of_int b :: rat)" if "y \<le> of_int b" for y :: rat and b
  proof -
    have "y * 10 ^ p \<le> of_int (b * 10 ^ p)"
      using that pos by simp
    then have "y * 10 ^ p + 1 / 2 < of_int (b * 10 ^ p) + 1"
      by linarith
    then have "\<lfloor>y * 10 ^ p + 1 / 2\<rfloor> \<le> b * 10 ^ p"
      by (simp only: floor_le_iff)
    then have "(of_int \<lfloor>y * 10 ^ p + 1 / 2\<rfloor> :: rat) \<le> of_int (b * 10 ^ p)"
      by (simp only: of_int_le_iff)
    then show ?thesis
      using pos by (simp add: divide_le_eq)
  qed
  have down: "(of_int b :: rat) \<le> of_int \<lfloor>y * 10 ^ p + 1 / 2\<rfloor> / 10 ^ p" if "of_int b \<le> y" for y :: rat and b
  proof -
    have "of_int (b * 10 ^ p) \<le> y * 10 ^ p"
      using that pos by simp
    then have "of_int (b * 10 ^ p) \<le> y * 10 ^ p + 1 / 2"
      by linarith
    then have "b * 10 ^ p \<le> \<lfloor>y * 10 ^ p + 1 / 2\<rfloor>"
      by (simp only: le_floor_iff)
    then have "(of_int (b * 10 ^ p) :: rat) \<le> of_int \<lfloor>y * 10 ^ p + 1 / 2\<rfloor>"
      by (simp only: of_int_le_iff)
    then show ?thesis
      using pos by (simp add: le_divide_eq)
  qed
  show ?thesis
  proof (cases "x < 0")
    case False
    then have ax: "\<bar>x\<bar> = x" by simp
    from up [OF assms(2)] down [OF assms(1)] False show ?thesis
      by (simp add: round_decimal_def ax)
  next
    case True
    then have ax: "\<bar>x\<bar> = - x" by simp
    have a: "- x \<le> of_int (- lo)" "of_int (- hi) \<le> - x"
      using assms by simp_all
    from up [OF a(1)] down [OF a(2)] True show ?thesis
      by (simp add: round_decimal_def ax)
  qed
qed

section \<open>Properties of clamping and normalisation\<close>

lemma clampField_simps [simp]:
  "clampField None lo hi = None"
  "clampField (Some 0) lo hi = None"
  "x \<noteq> 0 \<Longrightarrow> clampField (Some x) lo hi = Some (min (max x lo) hi)"
  by (simp_all add: clampField_def)

lemma normalizeNumber_simps [simp]:
  "normalizeNumber None p = None"
  "normalizeNumber (Some x) p = Some (Number (toFixed x p))"
  by (simp_all add: normalizeNumber_def)

text \<open>A metric absent in the reading is absent in the normalised record.\<close>

lemma ingest_absent_stays_absent:
  "poaIrrWm2 r = None \<Longrightarrow> poaIrrWm2 (ingest cfg r) = None"
  "tempC r = None \<Longrightarrow> tempC (ingest cfg r) = None"
  "windMps r = None \<Longrightarrow> windMps (ingest cfg r) = None"
  "acPowerKw r = None \<Longrightarrow> acPowerKw (ingest cfg r) = None"
  "acEnergyKWh r = None \<Longrightarrow> acEnergyKWh (ingest cfg r) = None"
  by (simp_all add: ingest_def clampValues_def normalizeTelemetry_def Let_def)

text \<open>A reading of zero is ingested exactly as a missing reading, for each metric.\<close>

lemma ingest_zero_as_absent:
  "ingest cfg (r\<lparr>poaIrrWm2 := Some 0\<rparr>) = ingest cfg (r\<lparr>poaIrrWm2 := None\<rparr>)"
  "ingest cfg (r\<lparr>tempC := Some 0\<rparr>) = ingest cfg (r\<lparr>tempC := None\<rparr>)"
  "ingest cfg (r\<lparr>windMps := Some 0\<rparr>) = ingest cfg (r\<lparr>windMps := None\<rparr>)"
  "ingest cfg (r\<lparr>acPowerKw := Some 0\<rparr>) = ingest cfg (r\<lparr>acPowerKw := None\<rparr>)"
  "ingest cfg (r\<lparr>acEnergyKWh := Some 0\<rparr>) = ingest cfg (r\<lparr>acEnergyKWh := None\<rparr>)"
  by (simp_all add: ingest_def clampValues_def)

text \<open>
  The hashing itself tells zero from absent: zero renders as \<^verbatim>\<open>0\<close>, an absent metric as the
  empty string, so the two pre-hash strings differ.
\<close>

lemma render_zero: "render (Some 0) = ''0''"
  by code_simp

lemma render_None: "render None = []"
  by (simp add: render_def or_else_def)

lemma canonicalRow_zero_differs:
  "canonicalRow site ts (Some 0) p i t st \<noteq> canonicalRow site ts None p i t st"
  by (simp add: canonicalRow_def render_zero render_None)

text \<open>
  Claim C2, at a reading whose energy is zero.  The claim says that the zero stays present
  as zero and that the row hash differs from that of the same reading without an energy
  value.  In the code \<^verbatim>\<open>clampValues\<close> tests the value's truthiness, so the zero is dropped:
  the normalised record has no energy value and the same row hash as the reading without
  one.
\<close>

theorem C2_zero_reading_ingested_as_missing:
  "acEnergyKWh (demo_input\<lparr>acEnergyKWh := Some 0\<rparr>) = Some 0
   \<and> acEnergyKWh (ingest defaultPrecision (demo_input\<lparr>acEnergyKWh := Some 0\<rparr>)) = None
   \<and> rowHash (ingest defaultPrecision (demo_input\<lparr>acEnergyKWh := Some 0\<rparr>))
       = rowHash (ingest defaultPrecision (demo_input\<lparr>acEnergyKWh := None\<rparr>))"
  by (simp add: ingest_zero_as_absent ingest_absent_stays_absent)

text \<open>The values of the repository's test, at the default precision.\<close>

lemma normalize_examples:
  "normalizeNumber (Some (1234567 / 1000000)) (energy defaultPrecision) = Some (123 / 100)"
  "normalizeNumber (Some (2345678 / 1000000)) (power defaultPrecision) = Some (2346 / 1000)"
  "normalizeNumber (Some (800123456 / 1000000)) (irradiance defaultPrecision) = Some (8001 / 10)"
  "normalizeNumber (Some (25678901 / 1000000)) (temp defaultPrecision) = Some (257 / 10)"
  by code_simp+

lemma ingest_demo:
  "acEnergyKWh (ingest defaultPrecision demo_input) = Some (123 / 100)"
  "acPowerKw (ingest defaultPrecision demo_input) = Some (2346 / 1000)"
  "poaIrrWm2 (ingest defaultPrecision demo_input) = Some (8001 / 10)"
  "tempC (ingest defaultPrecision demo_input) = Some (257 / 10)"
  "windMps (ingest defaultPrecision demo_input) = None"
  using normalize_examples
  by (simp_all add: ingest_def clampValues_def normalizeTelemetry_def Let_def demo_input_def)

text \<open>
  Claim C6, at a reading whose temperature is 0 degrees.  The claim says that every present
  value is clamped to its range and then rounded: 0 lies in the range and rounds to 0.  In
  the code the truthiness test of \<^verbatim>\<open>clampValues\<close> drops the value, and the normalised record
  has no temperature.
\<close>

theorem C6_zero_temperature_dropped:
  "tempC (demo_input\<lparr>tempC := Some 0\<rparr>) = Some 0
   \<and> normalizeNumber (Some (min (max 0 (- 50)) 80)) (temp defaultPrecision) = Some 0
   \<and> tempC (ingest defaultPrecision (demo_input\<lparr>tempC := Some 0\<rparr>)) = None"
proof -
  have "Number (toFixed 0 1) = 0"
    by code_simp
  then show ?thesis
    by (simp add: ingest_def clampValues_def normalizeTelemetry_def Let_def defaultPrecision_def)
qed

text \<open>
  Every present value other than zero is clamped to its range and then rounded to the
  configured number of decimals (wind speed at the precision of temperature).
\<close>

lemma ingest_nonzero_clamped_rounded:
  "poaIrrWm2 r = Some x \<Longrightarrow> x \<noteq> 0 \<Longrightarrow>
     poaIrrWm2 (ingest cfg r) = Some (round_decimal (min (max x 0) 2000) (irradiance cfg))"
  "tempC r = Some x \<Longrightarrow> x \<noteq> 0 \<Longrightarrow>
     tempC (ingest cfg r) = Some (round_decimal (min (max x (- 50)) 80) (temp cfg))"
  "windMps r = Some x \<Longrightarrow> x \<noteq> 0 \<Longrightarrow>
     windMps (ingest cfg r) = Some (round_decimal (min (max x 0) 100) (temp cfg))"
  "acPowerKw r = Some x \<Longrightarrow> x \<noteq> 0 \<Longrightarrow>
     acPowerKw (ingest cfg r) = Some (round_decimal (min (max x 0) 10000) (power cfg))"
  "acEnergyKWh r = Some x \<Longrightarrow> x \<noteq> 0 \<Longrightarrow>
     acEnergyKWh (ingest cfg r) = Some (round_decimal (min (max x 0) 1000) (energy cfg))"
  by (simp_all add: ingest_def clampValues_def normalizeTelemetry_def Let_def Number_toFixed)

lemma clamp_round_in_range:
  assumes "lo \<le> hi"
  shows "of_int lo \<le> round_decimal (min (max x (of_int lo)) (of_int hi)) p
         \<and> round_decimal (min (max x (of_int lo)) (of_int hi)) p \<le> of_int hi"
proof (rule round_decimal_range)
  show "of_int lo \<le> min (max x (of_int lo)) (of_int hi)"
    using assms by simp
  show "min (max x (of_int lo)) (of_int hi) \<le> of_int hi"
    by simp
qed

lemma ingest_tempC_in_range:
  assumes "tempC (ingest cfg r) = Some y"
  shows "- 50 \<le> y \<and> y \<le> 80"
proof (cases "tempC r")
  case None
  with assms show ?thesis
    by (simp add: ingest_absent_stays_absent)
next
  case (Some x)
  show ?thesis
  proof (cases "x = 0")
    case True
    with Some assms show ?thesis
      by (simp add: ingest_def clampValues_def normalizeTelemetry_def Let_def)
  next
    case False
    from ingest_nonzero_clamped_rounded(2) [OF Some False, of cfg] assms
    have "y = round_decimal (min (max x (of_int (- 50))) (of_int 80)) (temp cfg)"
      by simp
    with clamp_round_in_range [of "- 50" 80 x "temp cfg"] show ?thesis
      by simp
  qed
qed

section \<open>Properties of row hashing\<close>



















section \<open>Properties of daily aggregation\<close>

lemma findSite_None_iff: "findSite st sid = None \<longleftrightarrow> sid \<notin> site_id ` set (sites st)"
  by (auto simp: findSite_def find_None_iff)

lemma sort_key_Nil_iff: "sort_key f ys = [] \<longleftrightarrow> ys = []"
  using length_sort [of f ys] by (cases ys) auto

lemma findTelemetry_Nil_iff:
  "findTelemetry st sid lo hi = [] \<longleftrightarrow>
     (\<forall>r \<in> set (rawTelemetry st). siteId r = sid \<longrightarrow> \<not> (lo \<le> tsUtc r \<and> tsUtc r \<le> hi))"
  unfolding findTelemetry_def sort_key_Nil_iff filter_empty_conv by blast

lemma demo_sites: "site_id ` set (sites demo_db) = {''PRJ001''}"
  by (simp add: demo_db_def demo_site_def)

lemma demo_day_bounds:
  "getDayStart 1707955200000 = 1707955200000" "getDayEnd 1707955200000 = 1708041599999"
  "getDayStart 1705320000000 = 1705276800000" "getDayEnd 1705320000000 = 1705363199999"
  by (simp_all add: getDayStart_def getDayEnd_def msPerDay_def)

text \<open>
  Claim C7.  Daily aggregation for a known site whose period holds no record returns the
  no-record sentinel (\<open>Inr None\<close>, not an error) and leaves the store as it was, so no digest
  is written; for an unknown site it fails with the site-not-found error, whatever the
  period holds, so also when it is empty.  The two outcomes differ.
\<close>

theorem C7_empty_period_versus_unknown_site:
  "(sid \<in> site_id ` set (sites st)
      \<and> (\<forall>r \<in> set (rawTelemetry st). siteId r = sid \<longrightarrow>
            \<not> (getDayStart day \<le> tsUtc r \<and> tsUtc r \<le> getDayEnd day))
      \<longrightarrow> aggregateDaily st sid day = (Inr None, st))
   \<and> (sid \<notin> site_id ` set (sites st)
      \<longrightarrow> aggregateDaily st sid day = (Inl (SiteNotFound sid), st))"
proof (intro conjI impI)
  assume h: "sid \<in> site_id ` set (sites st)
      \<and> (\<forall>r \<in> set (rawTelemetry st). siteId r = sid \<longrightarrow>
            \<not> (getDayStart day \<le> tsUtc r \<and> tsUtc r \<le> getDayEnd day))"
  then obtain s where s: "findSite st sid = Some s"
    using findSite_None_iff [of st sid] by (cases "findSite st sid") auto
  from h have "findTelemetry st sid (getDayStart day) (getDayEnd day) = []"
    by (simp add: findTelemetry_Nil_iff)
  with s show "aggregateDaily st sid day = (Inr None, st)"
    by (simp add: aggregateDaily_def)
next
  assume "sid \<notin> site_id ` set (sites st)"
  then have "findSite st sid = None"
    by (simp add: findSite_None_iff)
  then show "aggregateDaily st sid day = (Inl (SiteNotFound sid), st)"
    by (simp add: aggregateDaily_def)
qed

theorem C7_empty_period_versus_unknown_site_witness:
  "''PRJ001'' \<in> site_id ` set (sites demo_db)
   \<and> filter (\<lambda>r. siteId r = ''PRJ001'' \<and> getDayStart 1707955200000 \<le> tsUtc r
                    \<and> tsUtc r \<le> getDayEnd 1707955200000) (rawTelemetry demo_db) = []
   \<and> aggregateDaily demo_db ''PRJ001'' 1707955200000 = (Inr None, demo_db)
   \<and> ''PRJ999'' \<notin> site_id ` set (sites demo_db)
   \<and> aggregateDaily demo_db ''PRJ999'' 1707955200000 = (Inl (SiteNotFound ''PRJ999''), demo_db)"
proof -
  have a: "''PRJ001'' \<in> site_id ` set (sites demo_db)"
    by (simp add: demo_sites)
  have e: "filter (\<lambda>r. siteId r = ''PRJ001'' \<and> getDayStart 1707955200000 \<le> tsUtc r
                    \<and> tsUtc r \<le> getDayEnd 1707955200000) (rawTelemetry demo_db) = []"
    by (simp add: demo_day_bounds demo_db_def demo_reading_def)
  then have n: "\<forall>r \<in> set (rawTelemetry demo_db). siteId r = ''PRJ001'' \<longrightarrow>
            \<not> (getDayStart 1707955200000 \<le> tsUtc r \<and> tsUtc r \<le> getDayEnd 1707955200000)"
    unfolding filter_empty_conv by blast
  have b: "''PRJ999'' \<notin> site_id ` set (sites demo_db)"
    by (simp add: demo_sites)
  from a e n b C7_empty_period_versus_unknown_site [of "''PRJ001''" demo_db 1707955200000]
    C7_empty_period_versus_unknown_site [of "''PRJ999''" demo_db 1707955200000]
  show ?thesis by blast
qed





lemma demo_findSite: "findSite demo_db ''PRJ001'' = Some demo_site"
  by (simp add: findSite_def demo_db_def demo_site_def)

lemma demo_findTelemetry:
  "findTelemetry demo_db ''PRJ001'' 1705276800000 1705363199999 =
     [demo_reading 1705320000000 1 ''h1'', demo_reading 1705320900000 2 ''h2'',
      demo_reading 1705321800000 3 ''h3'']"
  by (simp add: findTelemetry_def demo_db_def demo_reading_def)



subsection \<open>The scenario in double arithmetic\<close>

text \<open>
  Daily aggregation is modelled with exact values.  With every operation rounded to
  binary64, as the program computes, the sum of 1, 2 and 3 is still 6, and the avoided emissions for the baseline
  0.708 differ from 0.004248 by less than \<open>10\<^sup>-\<^sup>1\<^sup>8\<close>, well within the tolerance of
  \<open>10\<^sup>-\<^sup>9\<close>, though the result is not the double nearest to 0.004248.
\<close>

lemma double_examples:
  "double (708 / 1000) = 3188548536178311 / 4503599627370496"
  "double 6 = 6"
  "double (1 / 10) = 3602879701896397 / 36028797018963968"
  "double (- 5 / 2) = - 5 / 2"
  by code_simp+

lemma scenario_in_double_arithmetic:
  "double (double (double (0 + 1) + 2) + 3) = 6"
  "double (double (double (double (double (0 + 1) + 2) + 3) * double (708 / 1000)) / 1000)
     = 4897610551569885 / 1152921504606846976"
  "\<bar>4897610551569885 / 1152921504606846976 - 4248 / 1000000 :: rat\<bar> \<le> 1 / 10 ^ 9"
  "double (4248 / 1000000) \<noteq> 4897610551569885 / 1152921504606846976"
  by code_simp+

subsection \<open>The empty period\<close>

lemma generateMerkleRoot_None_iff: "generateMerkleRoot ls = None \<longleftrightarrow> ls = []"
proof
  assume none: "generateMerkleRoot ls = None"
  show "ls = []"
  proof (rule ccontr)
    assume "ls \<noteq> []"
    from generateMerkleRoot_Some [OF this] none show False by simp
  qed
next
  assume "ls = []"
  then show "generateMerkleRoot ls = None" by (simp add: generateMerkleRoot_Nil)
qed

text \<open>
  Claim C10.  For the empty list of row hashes the tree is built (its only level is the
  empty leaf level) but \<^verbatim>\<open>getRoot\<close> yields no hash, so \<^verbatim>\<open>generateMerkleRoot\<close> returns no
  digest string at all.  \<^verbatim>\<open>aggregateDaily\<close> guards the case: with no record in the period it
  returns the sentinel (or the unknown-site error) before any tree is built, and a digest it
  does produce always carries a root.
\<close>

theorem C10_empty_tree_has_no_root:
  "newMerkleTree [] = \<lparr>leaves = [], tree = [[]]\<rparr>
   \<and> getRoot (newMerkleTree []) = None
   \<and> generateMerkleRoot [] = None
   \<and> (findTelemetry st sid (getDayStart day) (getDayEnd day) = []
        \<longrightarrow> aggregateDaily st sid day = (Inr None, st)
            \<or> aggregateDaily st sid day = (Inl (SiteNotFound sid), st))
   \<and> (findSite st sid \<noteq> None \<and> findTelemetry st sid (getDayStart day) (getDayEnd day) \<noteq> []
        \<longrightarrow> (\<exists>r st' h. aggregateDaily st sid day = (Inr (Some r), st')
               \<and> merkleRoot r = Some h))"
proof (intro conjI impI)
  show "newMerkleTree [] = \<lparr>leaves = [], tree = [[]]\<rparr>"
    by (rule newMerkleTree_Nil)
  show "getRoot (newMerkleTree []) = None"
    by (simp add: newMerkleTree_Nil getRoot_def)
  show "generateMerkleRoot [] = None"
    by (rule generateMerkleRoot_Nil)
next
  assume "findTelemetry st sid (getDayStart day) (getDayEnd day) = []"
  then show "aggregateDaily st sid day = (Inr None, st)
            \<or> aggregateDaily st sid day = (Inl (SiteNotFound sid), st)"
    by (cases "findSite st sid") (simp_all add: aggregateDaily_def)
next
  assume h: "findSite st sid \<noteq> None \<and> findTelemetry st sid (getDayStart day) (getDayEnd day) \<noteq> []"
  then obtain site where site: "findSite st sid = Some site" by auto
  from h have "map rowHash (findTelemetry st sid (getDayStart day) (getDayEnd day)) \<noteq> []"
    by simp
  from generateMerkleRoot_Some [OF this] obtain h' where
    "generateMerkleRoot (map rowHash (findTelemetry st sid (getDayStart day) (getDayEnd day))) = Some h'" ..
  with site h show "\<exists>r st' h. aggregateDaily st sid day = (Inr (Some r), st') \<and> merkleRoot r = Some h"
    by (simp add: aggregateDaily_def Let_def)
qed

theorem C10_empty_tree_has_no_root_witness:
  "findTelemetry demo_db ''PRJ001'' (getDayStart 1707955200000) (getDayEnd 1707955200000) = []
   \<and> aggregateDaily demo_db ''PRJ001'' 1707955200000 = (Inr None, demo_db)
   \<and> findSite demo_db ''PRJ001'' \<noteq> None
   \<and> findTelemetry demo_db ''PRJ001'' (getDayStart 1705320000000) (getDayEnd 1705320000000) \<noteq> []
   \<and> (\<exists>r st' h. aggregateDaily demo_db ''PRJ001'' 1705320000000 = (Inr (Some r), st')
               \<and> merkleRoot r = Some h)"
proof -
  have e: "findTelemetry demo_db ''PRJ001'' (getDayStart 1707955200000) (getDayEnd 1707955200000) = []"
    by (simp add: demo_day_bounds findTelemetry_def demo_db_def demo_reading_def)
  have ne: "findTelemetry demo_db ''PRJ001'' (getDayStart 1705320000000) (getDayEnd 1705320000000) \<noteq> []"
    by (simp add: demo_day_bounds demo_findTelemetry)
  have s: "findSite demo_db ''PRJ001'' \<noteq> None"
    by (simp add: demo_findSite)
  have "aggregateDaily demo_db ''PRJ001'' 1707955200000 \<noteq> (Inl (SiteNotFound ''PRJ001''), demo_db)"
    by (simp add: aggregateDaily_def demo_findSite Let_def)
  with e ne s C10_empty_tree_has_no_root [of demo_db "''PRJ001''" 1707955200000]
    C10_empty_tree_has_no_root [of demo_db "''PRJ001''" 1705320000000]
  show ?thesis by blast
qed

section \<open>Properties of anchoring\<close>

lemma postAnchor_step:
  assumes "postAnchor req w = (res, w')"
  shows "trace w' = trace w @ [Fetch req] \<and> adapter w' = adapter w
         \<and> ((\<exists>body. res = Inr body) \<longleftrightarrow> accepted w req (nfetch w))"
  using assms
  by (auto simp: postAnchor_def fetch_def accepted_def split: fetch_outcome.splits if_splits)

lemma nfetch_after_attempt:
  "trace w2 = trace w @ [Fetch req, Sleep ms] \<Longrightarrow> nfetch w2 = Suc (nfetch w)"
  by (simp add: nfetch_def)

lemma accepted_cong: "adapter w2 = adapter w \<Longrightarrow> accepted w2 req n = accepted w req n"
  by (simp add: accepted_def)

lemma retryLoop_postAnchor:
  assumes "attempt \<le> maxRetries"
    and "retryLoop (postAnchor req) maxRetries b attempt le w = (res, w')"
  shows "\<exists>k. attempt \<le> k \<and> k \<le> maxRetries
           \<and> trace w' = trace w @ concat (map (\<lambda>i. [Fetch req, Sleep (b * 2 ^ i)]) [attempt..<k])
                                  @ [Fetch req]
           \<and> adapter w' = adapter w
           \<and> (\<forall>i. attempt \<le> i \<and> i < k \<longrightarrow> \<not> accepted w req (nfetch w + (i - attempt)))
           \<and> ((\<exists>body. res = Inr body) \<longleftrightarrow> accepted w req (nfetch w + (k - attempt)))
           \<and> (accepted w req (nfetch w + (k - attempt)) \<or> k = maxRetries)"
  using assms
proof (induction "postAnchor req" maxRetries b attempt le w arbitrary: res w'
       rule: retryLoop.induct)
  case (1 maxRetries b attempt le w)
  obtain r1 w1 where step: "postAnchor req w = (r1, w1)"
    by (cases "postAnchor req w")
  note st = postAnchor_step [OF step]
  have unf: "retryLoop (postAnchor req) maxRetries b attempt le w =
      (case r1 of
         Inr v \<Rightarrow> (Inr v, w1)
       | Inl e \<Rightarrow> if attempt = maxRetries then (Inl e, w1)
                  else retryLoop (postAnchor req) maxRetries b (attempt + 1) e
                         (sleep (b * 2 ^ attempt) w1))"
    using "1.prems"(1) step by (subst retryLoop.simps) simp
  show ?case
  proof (cases r1)
    case (Inr body)
    with "1.prems"(2) unf have "res = Inr body" "w' = w1"
      by simp_all
    with st Inr "1.prems"(1) show ?thesis
      by (intro exI [of _ attempt]) auto
  next
    case (Inl e)
    show ?thesis
    proof (cases "attempt = maxRetries")
      case True
      with "1.prems"(2) unf Inl have "res = Inl e" "w' = w1"
        by simp_all
      with st Inl True show ?thesis
        by (intro exI [of _ attempt]) auto
    next
      case False
      let ?w2 = "sleep (b * 2 ^ attempt) w1"
      from "1.prems"(2) unf Inl False
      have rec: "retryLoop (postAnchor req) maxRetries b (attempt + 1) e ?w2 = (res, w')"
        by simp
      have le': "attempt + 1 \<le> maxRetries"
        using False "1.prems"(1) by simp
      have tr2: "trace ?w2 = trace w @ [Fetch req, Sleep (b * 2 ^ attempt)]"
        and ad2: "adapter ?w2 = adapter w"
        using st by (simp_all add: sleep_def)
      have nf2: "nfetch ?w2 = Suc (nfetch w)"
        by (rule nfetch_after_attempt [OF tr2])
      from "1.hyps" [OF "1.prems"(1) step [symmetric] Inl False le' rec]
      obtain k where k: "attempt + 1 \<le> k" "k \<le> maxRetries"
        "trace w' = trace ?w2 @ concat (map (\<lambda>i. [Fetch req, Sleep (b * 2 ^ i)]) [attempt + 1..<k])
                     @ [Fetch req]"
        "adapter w' = adapter ?w2"
        "\<forall>i. attempt + 1 \<le> i \<and> i < k \<longrightarrow> \<not> accepted ?w2 req (nfetch ?w2 + (i - (attempt + 1)))"
        "(\<exists>body. res = Inr body) \<longleftrightarrow> accepted ?w2 req (nfetch ?w2 + (k - (attempt + 1)))"
        "accepted ?w2 req (nfetch ?w2 + (k - (attempt + 1))) \<or> k = maxRetries"
        by blast
      have idx: "nfetch ?w2 + (i - (attempt + 1)) = nfetch w + (i - attempt)" if "attempt + 1 \<le> i" for i
        using that nf2 by simp
      have upt: "[attempt..<k] = attempt # [attempt + 1..<k]"
        using k(1) by (simp add: upt_conv_Cons)
      have first_failed: "\<not> accepted w req (nfetch w)"
        using st Inl by auto
      have "trace w' = trace w @ concat (map (\<lambda>i. [Fetch req, Sleep (b * 2 ^ i)]) [attempt..<k])
                         @ [Fetch req]"
        using k(3) tr2 upt by simp
      moreover have "\<forall>i. attempt \<le> i \<and> i < k \<longrightarrow> \<not> accepted w req (nfetch w + (i - attempt))"
      proof (intro allI impI)
        fix i assume i: "attempt \<le> i \<and> i < k"
        show "\<not> accepted w req (nfetch w + (i - attempt))"
        proof (cases "i = attempt")
          case True
          then show ?thesis using first_failed by simp
        next
          case False
          with i have "attempt + 1 \<le> i" by simp
          with k(5) i idx [of i] accepted_cong [OF ad2] show ?thesis by auto
        qed
      qed
      moreover have "(\<exists>body. res = Inr body) \<longleftrightarrow> accepted w req (nfetch w + (k - attempt))"
        using k(6) idx [OF k(1)] accepted_cong [OF ad2] by simp
      moreover have "accepted w req (nfetch w + (k - attempt)) \<or> k = maxRetries"
        using k(7) idx [OF k(1)] accepted_cong [OF ad2] by auto
      ultimately show ?thesis
        using k(1,2,4) ad2 by (intro exI [of _ k]) auto
    qed
  qed
qed
lemma retryWithBackoff_postAnchor:
  assumes "retryWithBackoff (postAnchor req) maxRetries b w = (res, w')"
  shows "\<exists>k\<le>maxRetries. trace w' = trace w @ backoff_trace req b k
           \<and> adapter w' = adapter w
           \<and> (\<forall>i<k. \<not> accepted w req (nfetch w + i))
           \<and> ((\<exists>body. res = Inr body) \<longleftrightarrow> accepted w req (nfetch w + k))
           \<and> (accepted w req (nfetch w + k) \<or> k = maxRetries)"
proof -
  from assms have "retryLoop (postAnchor req) maxRetries b 0 [] w = (res, w')"
    by (simp add: retryWithBackoff_def)
  from retryLoop_postAnchor [OF _ this]
  show ?thesis
    by (simp add: backoff_trace_def)
qed

lemma anchorDigest_unconfigured:
  assumes "ANCHOR_ENABLED e" and "falsy (ADAPTER_API_URL e) \<or> falsy (ADAPTER_API_KEY e)"
  shows "anchorDigest e d w =
           (\<lparr>success = False, r_adapterTxId = None, r_txHash = None,
             error = Some ''Adapter API not configured''\<rparr>, w)"
  using assms by (auto simp: anchorDigest_def)

lemma anchorDigest_configured:
  assumes en: "ANCHOR_ENABLED e"
    and cf: "\<not> falsy (ADAPTER_API_URL e)" "\<not> falsy (ADAPTER_API_KEY e)"
    and run: "anchorDigest e d w = (res, w')"
  shows "\<exists>k\<le>3. trace w' = trace w @ backoff_trace (anchorRequest e d) 1000 k
           \<and> adapter w' = adapter w
           \<and> (\<forall>i<k. \<not> accepted w (anchorRequest e d) (nfetch w + i))
           \<and> (accepted w (anchorRequest e d) (nfetch w + k) \<or> k = 3)
           \<and> (success res \<longrightarrow> accepted w (anchorRequest e d) (nfetch w + k))"
proof -
  obtain r1 w1 where rw: "retryWithBackoff (postAnchor (anchorRequest e d)) 3 1000 w = (r1, w1)"
    by (cases "retryWithBackoff (postAnchor (anchorRequest e d)) 3 1000 w")
  from retryWithBackoff_postAnchor [OF rw]
  obtain k where k: "k \<le> 3" "trace w1 = trace w @ backoff_trace (anchorRequest e d) 1000 k"
    "adapter w1 = adapter w"
    "\<forall>i<k. \<not> accepted w (anchorRequest e d) (nfetch w + i)"
    "(\<exists>body. r1 = Inr body) \<longleftrightarrow> accepted w (anchorRequest e d) (nfetch w + k)"
    "accepted w (anchorRequest e d) (nfetch w + k) \<or> k = 3"
    by blast
  from en cf run rw have w': "w' = w1"
    by (auto simp: anchorDigest_def split: sum.splits json_body.splits)
  from en cf run rw have "success res \<longrightarrow> (\<exists>body. r1 = Inr body)"
    by (auto simp: anchorDigest_def split: sum.splits json_body.splits)
  with k w' show ?thesis
    by (intro exI [of _ k]) simp
qed

lemma backoff_trace_3:
  "backoff_trace req 1000 3 =
     [Fetch req, Sleep 1000, Fetch req, Sleep 2000, Fetch req, Sleep 4000, Fetch req]"
  by (simp add: backoff_trace_def upt_rec)

text \<open>
  Claim C8.  With anchoring enabled, a missing adapter endpoint or key makes
  \<^verbatim>\<open>anchorDigest\<close> report failure at once, the world untouched: no request is sent and there
  is no retry.  With both configured the call sends \<open>k + 1\<close> requests for some \<open>k\<close> of at
  most 3, so at most four attempts, sleeping 1000, 2000, 4000 milliseconds (the base delay
  doubled each time) between them; each of the first \<open>k\<close> requests failed (rejected in
  transport or answered with a non-ok response), and the last one either was accepted or
  was the fourth; a successful result means the last request was accepted.
\<close>

theorem C8_bounded_backoff_and_terminal_config_error:
  "(ANCHOR_ENABLED e \<and> (falsy (ADAPTER_API_URL e) \<or> falsy (ADAPTER_API_KEY e))
      \<longrightarrow> anchorDigest e d w =
            (\<lparr>success = False, r_adapterTxId = None, r_txHash = None,
              error = Some ''Adapter API not configured''\<rparr>, w))
   \<and> (ANCHOR_ENABLED e \<and> \<not> falsy (ADAPTER_API_URL e) \<and> \<not> falsy (ADAPTER_API_KEY e)
      \<longrightarrow> (\<exists>k\<le>3. trace (snd (anchorDigest e d w))
                      = trace w @ backoff_trace (anchorRequest e d) 1000 k
               \<and> (\<forall>i<k. \<not> accepted w (anchorRequest e d) (nfetch w + i))
               \<and> (accepted w (anchorRequest e d) (nfetch w + k) \<or> k = 3)
               \<and> (success (fst (anchorDigest e d w))
                    \<longrightarrow> accepted w (anchorRequest e d) (nfetch w + k))))
   \<and> backoff_trace (anchorRequest e d) 1000 3 =
       [Fetch (anchorRequest e d), Sleep 1000, Fetch (anchorRequest e d), Sleep 2000,
        Fetch (anchorRequest e d), Sleep 4000, Fetch (anchorRequest e d)]"
proof (intro conjI impI)
  assume "ANCHOR_ENABLED e \<and> (falsy (ADAPTER_API_URL e) \<or> falsy (ADAPTER_API_KEY e))"
  then show "anchorDigest e d w =
            (\<lparr>success = False, r_adapterTxId = None, r_txHash = None,
              error = Some ''Adapter API not configured''\<rparr>, w)"
    by (simp add: anchorDigest_unconfigured)
next
  assume h: "ANCHOR_ENABLED e \<and> \<not> falsy (ADAPTER_API_URL e) \<and> \<not> falsy (ADAPTER_API_KEY e)"
  obtain res w' where run: "anchorDigest e d w = (res, w')"
    by (cases "anchorDigest e d w")
  from h have "ANCHOR_ENABLED e" "\<not> falsy (ADAPTER_API_URL e)" "\<not> falsy (ADAPTER_API_KEY e)"
    by simp_all
  from anchorDigest_configured [OF this run] run
  show "\<exists>k\<le>3. trace (snd (anchorDigest e d w))
                      = trace w @ backoff_trace (anchorRequest e d) 1000 k
               \<and> (\<forall>i<k. \<not> accepted w (anchorRequest e d) (nfetch w + i))
               \<and> (accepted w (anchorRequest e d) (nfetch w + k) \<or> k = 3)
               \<and> (success (fst (anchorDigest e d w))
                    \<longrightarrow> accepted w (anchorRequest e d) (nfetch w + k))"
    by auto
next
  show "backoff_trace (anchorRequest e d) 1000 3 =
       [Fetch (anchorRequest e d), Sleep 1000, Fetch (anchorRequest e d), Sleep 2000,
        Fetch (anchorRequest e d), Sleep 4000, Fetch (anchorRequest e d)]"
    by (rule backoff_trace_3)
qed
theorem C8_bounded_backoff_and_terminal_config_error_witness:
  "(ANCHOR_ENABLED demo_env_unconfigured
      \<and> (falsy (ADAPTER_API_URL demo_env_unconfigured)
           \<or> falsy (ADAPTER_API_KEY demo_env_unconfigured)))
   \<and> anchorDigest demo_env_unconfigured demo_digest demo_world_flaky =
        (\<lparr>success = False, r_adapterTxId = None, r_txHash = None,
          error = Some ''Adapter API not configured''\<rparr>, demo_world_flaky)
   \<and> (ANCHOR_ENABLED demo_env \<and> \<not> falsy (ADAPTER_API_URL demo_env)
        \<and> \<not> falsy (ADAPTER_API_KEY demo_env))
   \<and> (\<exists>k\<le>3. trace (snd (anchorDigest demo_env demo_digest demo_world_flaky))
                 = trace demo_world_flaky @ backoff_trace (anchorRequest demo_env demo_digest) 1000 k
          \<and> (\<forall>i<k. \<not> accepted demo_world_flaky (anchorRequest demo_env demo_digest)
                         (nfetch demo_world_flaky + i))
          \<and> (accepted demo_world_flaky (anchorRequest demo_env demo_digest)
                 (nfetch demo_world_flaky + k) \<or> k = 3)
          \<and> (success (fst (anchorDigest demo_env demo_digest demo_world_flaky))
               \<longrightarrow> accepted demo_world_flaky (anchorRequest demo_env demo_digest)
                     (nfetch demo_world_flaky + k)))"
proof -
  have a: "ANCHOR_ENABLED demo_env_unconfigured
      \<and> (falsy (ADAPTER_API_URL demo_env_unconfigured)
           \<or> falsy (ADAPTER_API_KEY demo_env_unconfigured))"
    by (simp add: demo_env_unconfigured_def falsy_def)
  have b: "ANCHOR_ENABLED demo_env \<and> \<not> falsy (ADAPTER_API_URL demo_env)
        \<and> \<not> falsy (ADAPTER_API_KEY demo_env)"
    by (simp add: demo_env_def falsy_def)
  from a b
    C8_bounded_backoff_and_terminal_config_error
      [of demo_env_unconfigured demo_digest demo_world_flaky]
    C8_bounded_backoff_and_terminal_config_error [of demo_env demo_digest demo_world_flaky]
  show ?thesis by blast
qed

text \<open>The same call, run: two rejected requests, two sleeps, the third request accepted.\<close>

lemma demo_formatDate: "formatDate 1705276800000 = ''2024-01-15''"
  by code_simp

lemma demo_anchorRequest:
  "anchorRequest demo_env demo_digest =
     \<lparr>url = ''https://adapter.example/v1/anchor'', authorization = ''Bearer secret'',
      topic = ''IOT:PRJ001:2024-01-15'', hash = Some ''00ff'', uri = None\<rparr>"
  by (simp add: anchorRequest_def demo_env_def demo_digest_def or_else_def falsy_def
      demo_formatDate)

lemma demo_anchor_flaky:
  "anchorDigest demo_env demo_digest demo_world_flaky =
     (\<lparr>success = True, r_adapterTxId = Some ''tx-1'', r_txHash = Some ''0xabc'', error = None\<rparr>,
      demo_world_flaky\<lparr>trace :=
        [Fetch (anchorRequest demo_env demo_digest), Sleep 1000,
         Fetch (anchorRequest demo_env demo_digest), Sleep 2000,
         Fetch (anchorRequest demo_env demo_digest)]\<rparr>)"
  by (simp add: anchorDigest_def retryWithBackoff_def retryLoop.simps postAnchor_def fetch_def
      sleep_def nfetch_def demo_env_def demo_world_flaky_def falsy_def)

subsection \<open>Anchoring disabled\<close>

text \<open>
  With anchoring disabled the service reports success with the references \<^verbatim>\<open>disabled\<close>
  before it looks at the configuration, and sends nothing; the anchor route then marks the
  digest as anchored with these references.
\<close>

lemma anchorDigest_disabled:
  "\<not> ANCHOR_ENABLED e \<Longrightarrow>
     anchorDigest e d w =
       (\<lparr>success = True, r_adapterTxId = Some ''disabled'', r_txHash = Some ''disabled'',
         error = None\<rparr>, w)"
  by (simp add: anchorDigest_def)

lemma anchorRoute_disabled:
  assumes "\<not> ANCHOR_ENABLED e" and "findDigest st sid day = Some d" and "\<not> anchored d"
  shows "anchorRoute e sid day (st, w) =
           (AnchoredNow (Some ''disabled'') (Some ''disabled''),
            markAnchored st (digest_id d) (Some ''disabled'') (Some ''disabled''), w)"
  using assms by (simp add: anchorRoute_def anchorDigest_disabled)

subsection \<open>Anchoring a digest twice\<close>







end
